theory Spec2Isabelle
  imports Main "HOL-Library.AList"
begin

text \<open>
  A model of the news verification backend: the endpoint \<open>POST /verify\<close> of \<open>main.py\<close>
  and the three services it calls (article extraction, news search, analysis by a language
  model), with the validation of the response in \<open>models.py\<close>. A call that may raise
  returns a sum, \<open>Inl\<close> the exception; the network collaborators and the library functions
  are arguments of the functions that use them.
\<close>

section \<open>Python strings\<close>

text \<open>
  A Python \<open>str\<close> is modelled as a \<open>string\<close>, one \<open>char\<close> per code point, so
  \<open>length\<close>, \<open>take\<close> and list equality are Python's \<open>len\<close>, slicing from the start and
  \<open>==\<close>. The model covers the code points below 256.
\<close>

definition isspace :: "char \<Rightarrow> bool" where
  \<comment> \<open>the white space of \<open>str.split()\<close> and \<open>str.strip()\<close> among the code points below 256\<close>
  "isspace c = (of_char c \<in> {9::nat, 10, 11, 12, 13, 28, 29, 30, 31, 32, 133, 160})"

definition strip :: "string \<Rightarrow> string" where
  "strip s = rev (dropWhile isspace (rev (dropWhile isspace s)))"

fun split_from :: "string \<Rightarrow> string \<Rightarrow> string list" where
  \<comment> \<open>the scan of \<open>str.split()\<close>: the first argument is the word read so far\<close>
  "split_from w [] = (if w = [] then [] else [w])"
| "split_from w (c # cs) =
     (if isspace c then (if w = [] then split_from [] cs else w # split_from [] cs)
      else split_from (w @ [c]) cs)"

definition split_ws :: "string \<Rightarrow> string list" where
  \<comment> \<open>\<open>s.split()\<close>\<close>
  "split_ws s = split_from [] s"

definition startswith :: "string \<Rightarrow> string \<Rightarrow> bool" where
  "startswith s p = (take (length p) s = p)"

definition startswith_any :: "string \<Rightarrow> string list \<Rightarrow> bool" where
  \<comment> \<open>\<open>s.startswith((p1, p2, ...))\<close>\<close>
  "startswith_any s ps = list_ex (startswith s) ps"

fun join :: "string \<Rightarrow> string list \<Rightarrow> string" where
  \<comment> \<open>\<open>sep.join(words)\<close>\<close>
  "join sep [] = []"
| "join sep [w] = w"
| "join sep (w # ws) = w @ sep @ join sep ws"

definition rsplit1_head :: "char \<Rightarrow> string \<Rightarrow> string" where
  \<comment> \<open>\<open>s.rsplit(c, 1)[0]\<close>: what precedes the last \<open>c\<close>, all of \<open>s\<close> when there is none\<close>
  "rsplit1_head c s =
     (if c \<in> set s then rev (drop 1 (dropWhile (\<lambda>x. x \<noteq> c) (rev s))) else s)"

fun find_sep :: "string \<Rightarrow> string \<Rightarrow> string \<Rightarrow> (string \<times> string) option" where
  \<comment> \<open>the first occurrence of \<open>sep\<close>: what precedes it (after \<open>pre\<close>) and what follows it\<close>
  "find_sep sep pre [] = None"
| "find_sep sep pre (c # cs) =
     (if startswith (c # cs) sep then Some (pre, drop (length sep) (c # cs))
      else find_sep sep (pre @ [c]) cs)"

definition contains :: "string \<Rightarrow> string \<Rightarrow> bool" where
  \<comment> \<open>\<open>sub in s\<close>\<close>
  "contains sub s = (sub = [] \<or> find_sep sub [] s \<noteq> None)"

definition split_first :: "string \<Rightarrow> string \<Rightarrow> string" where
  \<comment> \<open>\<open>s.split(sep)[0]\<close>\<close>
  "split_first sep s = (case find_sep sep [] s of None \<Rightarrow> s | Some (a, b) \<Rightarrow> a)"

definition lower_char :: "char \<Rightarrow> char" where
  "lower_char c =
     (let n = (of_char c :: nat)
      in if (65 \<le> n \<and> n \<le> 90) \<or> (192 \<le> n \<and> n \<le> 222 \<and> n \<noteq> 215)
         then char_of (n + 32) else c)"

definition lower :: "string \<Rightarrow> string" where
  \<comment> \<open>\<open>s.lower()\<close>\<close>
  "lower s = map lower_char s"

definition py_take :: "int \<Rightarrow> 'a list \<Rightarrow> 'a list" where
  \<comment> \<open>\<open>xs[:n]\<close>; a negative \<open>n\<close> counts from the end\<close>
  "py_take n xs = (if 0 \<le> n then take (nat n) xs else take (length xs - nat (- n)) xs)"

section \<open>Exceptions and JSON values\<close>

text \<open>
  The exceptions, all of them subclasses of \<open>Exception\<close>, with their message; \<open>Error\<close> is
  any other exception, such as the ones of the collaborators.
\<close>

datatype exn =
    JSONDecodeError string
  | ValueError string
  | TypeError string
  | AttributeError string
  | IndexError string
  | KeyError string
  | OverflowError string
  | ValidationError string
  | Error string

fun str_exn :: "exn \<Rightarrow> string" where
  \<comment> \<open>\<open>str(e)\<close>\<close>
  "str_exn (JSONDecodeError m) = m"
| "str_exn (ValueError m) = m"
| "str_exn (TypeError m) = m"
| "str_exn (AttributeError m) = m"
| "str_exn (IndexError m) = m"
| "str_exn (KeyError k) = [CHR 0x27] @ k @ [CHR 0x27]"
| "str_exn (OverflowError m) = m"
| "str_exn (ValidationError m) = m"
| "str_exn (Error m) = m"

text \<open>
  The values of \<open>json.loads\<close>. A finite float \<open>Finite m e\<close> is the number \<open>m * 2 ^ e\<close>;
  an object is the list of its items.
\<close>

datatype pyfloat = Finite int int | PosInf | NegInf | NaN

datatype json =
    JNull
  | JBool bool
  | JInt int
  | JFloat pyfloat
  | JStr string
  | JArr "json list"
  | JObj "(string \<times> json) list"

type_synonym dict = "(string \<times> json) list"

datatype builtin_op = OpStrip | OpIndex | OpIn | OpGetItem | OpInt

record parsed_url =
  netloc :: string
  path :: string

text \<open>
  What the code takes from the interpreter and from its libraries, none of it code of this
  repository: \<open>urllib.parse.urlparse\<close>, \<open>json.loads\<close>, \<open>int\<close> on a string, the text of the
  message of an exception the interpreter raises for an operation on a value, and pydantic's
  conversion of a value that is not yet of the field's type, with the text of its
  validation error for the fields that failed.
\<close>

record runtime =
  urlparse :: "string \<Rightarrow> exn + parsed_url"
  json_loads :: "string \<Rightarrow> exn + json"
  int_of_str :: "string \<Rightarrow> exn + int"
  interp_text :: "builtin_op \<Rightarrow> json \<Rightarrow> string"
  pydantic_str :: "json \<Rightarrow> string option"
  pydantic_int :: "json \<Rightarrow> int option"
  pydantic_text :: "string list \<Rightarrow> string"

definition float_trunc :: "int \<Rightarrow> int \<Rightarrow> int" where
  \<comment> \<open>the integer part, towards zero, of the float \<open>m * 2 ^ e\<close>\<close>
  "float_trunc m e =
     (if 0 \<le> e then m * 2 ^ nat e
      else if 0 \<le> m then m div 2 ^ nat (- e) else - ((- m) div 2 ^ nat (- e)))"

fun py_int :: "runtime \<Rightarrow> json \<Rightarrow> exn + int" where
  \<comment> \<open>\<open>int(v)\<close>\<close>
  "py_int rt (JInt n) = Inr n"
| "py_int rt (JBool b) = Inr (if b then 1 else 0)"
| "py_int rt (JFloat (Finite m e)) = Inr (float_trunc m e)"
| "py_int rt (JFloat NaN) = Inl (ValueError (interp_text rt OpInt (JFloat NaN)))"
| "py_int rt (JFloat f) = Inl (OverflowError (interp_text rt OpInt (JFloat f)))"
| "py_int rt (JStr s) = int_of_str rt s"
| "py_int rt v = Inl (TypeError (interp_text rt OpInt v))"

fun py_in :: "runtime \<Rightarrow> string \<Rightarrow> json \<Rightarrow> exn + bool" where
  \<comment> \<open>\<open>key in v\<close> for a string \<open>key\<close>\<close>
  "py_in rt k (JObj d) = Inr (k \<in> fst ` set d)"
| "py_in rt k (JArr xs) = Inr (JStr k \<in> set xs)"
| "py_in rt k (JStr s) = Inr (contains k s)"
| "py_in rt k v = Inl (TypeError (interp_text rt OpIn v))"

fun py_getitem :: "runtime \<Rightarrow> json \<Rightarrow> string \<Rightarrow> exn + json" where
  \<comment> \<open>\<open>v[key]\<close> for a string \<open>key\<close>\<close>
  "py_getitem rt (JObj d) k =
     (case map_of d k of None \<Rightarrow> Inl (KeyError k) | Some x \<Rightarrow> Inr x)"
| "py_getitem rt v k = Inl (TypeError (interp_text rt OpGetItem v))"

section \<open>models.py\<close>

definition allowed :: "string list" where
  "allowed = [''True'', ''False'', ''Misleading'', ''Unverified'']"

fun match_ignoring_case :: "string \<Rightarrow> string list \<Rightarrow> string option" where
  \<comment> \<open>the loop of \<open>validate_verdict\<close> over \<open>allowed\<close>\<close>
  "match_ignoring_case v [] = None"
| "match_ignoring_case v (allowed_verdict # rest) =
     (if lower v = lower allowed_verdict then Some allowed_verdict
      else match_ignoring_case v rest)"

definition validate_verdict :: "string \<Rightarrow> string" where
  "validate_verdict v =
     (if v \<notin> set allowed
      then (case match_ignoring_case v allowed of
              Some allowed_verdict \<Rightarrow> allowed_verdict
            | None \<Rightarrow> ''Unverified'')
      else v)"

record VerifyResponse =
  verdict :: string
  confidence :: int
  summary :: string
  evidence_links :: "string list"

definition field_str :: "runtime \<Rightarrow> json option \<Rightarrow> string option" where
  \<comment> \<open>a required field of type \<open>str\<close>\<close>
  "field_str rt x =
     (case x of None \<Rightarrow> None | Some (JStr s) \<Rightarrow> Some s | Some v \<Rightarrow> pydantic_str rt v)"

definition field_int :: "runtime \<Rightarrow> json option \<Rightarrow> int option" where
  \<comment> \<open>the field \<open>confidence: int = Field(..., ge=0, le=100)\<close>\<close>
  "field_int rt x =
     (case (case x of None \<Rightarrow> None | Some (JInt n) \<Rightarrow> Some n | Some v \<Rightarrow> pydantic_int rt v) of
        None \<Rightarrow> None
      | Some n \<Rightarrow> if 0 \<le> n \<and> n \<le> 100 then Some n else None)"

fun all_some :: "'a option list \<Rightarrow> 'a list option" where
  "all_some [] = Some []"
| "all_some (None # xs) = None"
| "all_some (Some x # xs) = (case all_some xs of None \<Rightarrow> None | Some ys \<Rightarrow> Some (x # ys))"

definition field_str_list :: "runtime \<Rightarrow> json option \<Rightarrow> string list option" where
  \<comment> \<open>the field \<open>evidence_links: List[str] = Field(default_factory=list)\<close>\<close>
  "field_str_list rt x =
     (case x of
        None \<Rightarrow> Some []
      | Some (JArr xs) \<Rightarrow> all_some (map (\<lambda>v. field_str rt (Some v)) xs)
      | Some v \<Rightarrow> None)"

definition new_VerifyResponse :: "runtime \<Rightarrow> dict \<Rightarrow> exn + VerifyResponse" where
  \<comment> \<open>\<open>VerifyResponse(**d)\<close>: each field converted, then the validator of \<open>verdict\<close>\<close>
  "new_VerifyResponse rt d =
     (let v = field_str rt (map_of d ''verdict'');
          c = field_int rt (map_of d ''confidence'');
          s = field_str rt (map_of d ''summary'');
          l = field_str_list rt (map_of d ''evidence_links'')
      in case (v, c, s, l) of
           (Some v', Some c', Some s', Some l') \<Rightarrow>
             Inr \<lparr>verdict = validate_verdict v', confidence = c', summary = s',
                  evidence_links = l'\<rparr>
         | _ \<Rightarrow>
             Inl (ValidationError (pydantic_text rt
               ((if v = None then [''verdict''] else []) @
                (if c = None then [''confidence''] else []) @
                (if s = None then [''summary''] else []) @
                (if l = None then [''evidence_links''] else [])))))"

section \<open>news\_search.py\<close>

definition url_prefixes :: "string list" where
  "url_prefixes = [''http://'', ''https://'', ''www.'']"

definition query_words :: "string \<Rightarrow> string list" where
  \<comment> \<open>the list \<open>words\<close> of \<open>_prepare_search_query\<close>\<close>
  "query_words content =
     filter (\<lambda>word. \<not> startswith_any word url_prefixes) (split_ws (strip (take 200 content)))"

definition prepare_search_query :: "string \<Rightarrow> string" where
  \<comment> \<open>\<open>NewsSearcher._prepare_search_query\<close>\<close>
  "prepare_search_query content =
     (let query = join '' '' (query_words content)
      in if length query > 150 then rsplit1_head CHR '' '' (take 150 query) else query)"

record article =
  title :: string
  url :: string
  source :: string
  snippet :: string
  published_date :: string

type_synonym item = "(string \<times> string) list"

definition get :: "item \<Rightarrow> string \<Rightarrow> string \<Rightarrow> string" where
  \<comment> \<open>\<open>item.get(key, default)\<close>\<close>
  "get i k dflt = (case map_of i k of None \<Rightarrow> dflt | Some v \<Rightarrow> v)"

record search_results =
  news_results :: "item list option"
  organic_results :: "item list option"

definition news_article :: "item \<Rightarrow> article" where
  "news_article i =
     \<lparr>title = get i ''title'' '''', url = get i ''link'' '''', source = get i ''source'' '''',
      snippet = get i ''snippet'' '''', published_date = get i ''date'' ''''\<rparr>"

definition organic_article :: "item \<Rightarrow> article" where
  "organic_article i =
     \<lparr>title = get i ''title'' '''', url = get i ''link'' '''',
      source = get i ''displayed_link'' '''', snippet = get i ''snippet'' '''',
      published_date = ''''\<rparr>"

definition search_related_news ::
  "(string \<Rightarrow> int \<Rightarrow> exn + search_results) \<Rightarrow> string \<Rightarrow> int \<Rightarrow> exn + article list" where
  \<comment> \<open>\<open>NewsSearcher.search_related_news\<close>; the first argument is the search collaborator,
      asked with the prepared query and the number of results\<close>
  "search_related_news google_search query num_results =
     (case google_search (prepare_search_query query) (min num_results 10) of
        Inl e \<Rightarrow> Inr []
      | Inr results \<Rightarrow>
          (let articles =
                 (case news_results results of
                    None \<Rightarrow> []
                  | Some items \<Rightarrow> map news_article (py_take num_results items));
               articles =
                 (if int (length articles) < num_results
                  then (case organic_results results of
                          None \<Rightarrow> articles
                        | Some items \<Rightarrow>
                            articles @
                            map organic_article
                              (py_take (num_results - int (length articles)) items))
                  else articles)
           in Inr articles))"

section \<open>extract.py\<close>

record page =
  page_title :: string
  page_text :: string

definition extract_sync :: "(string \<Rightarrow> exn + page) \<Rightarrow> string \<Rightarrow> string option" where
  \<comment> \<open>\<open>ArticleExtractor._extract_sync\<close>; the first argument is the extraction collaborator
      (download and parse)\<close>
  "extract_sync fetch u =
     (case fetch u of
        Inl e \<Rightarrow> None
      | Inr p \<Rightarrow>
          (let text = page_text p;
               text = (if page_title p \<noteq> []
                       then ''HEADLINE: '' @ page_title p @ [CHR 0x0A, CHR 0x0A] @ text
                       else text)
           in if text \<noteq> [] then Some (strip text) else None))"

definition extract_from_url :: "(string \<Rightarrow> exn + page) \<Rightarrow> string \<Rightarrow> exn + string option" where
  \<comment> \<open>\<open>ArticleExtractor.extract_from_url\<close>\<close>
  "extract_from_url fetch u =
     (case extract_sync fetch u of
        None \<Rightarrow> Inr None
      | Some article_data \<Rightarrow> if article_data \<noteq> [] then Inr (Some article_data) else Inr None)"

definition gather :: "(string \<Rightarrow> exn + string option) \<Rightarrow> string list \<Rightarrow> (exn + string option) list" where
  \<comment> \<open>\<open>asyncio.gather(*tasks, return_exceptions=True)\<close>: the outcome of each task in the
      order of the tasks, an exception that a task raised standing in its place\<close>
  "gather task urls = map task urls"

definition extract_multiple_of ::
  "(string \<Rightarrow> exn + string option) \<Rightarrow> string list \<Rightarrow> (string \<times> string option) list" where
  \<comment> \<open>the body of \<open>ArticleExtractor.extract_multiple\<close> over the outcome of the task of each
      URL; the dictionary \<open>url_to_text\<close> is an association list in insertion order. Nothing
      in the body raises, so its \<open>except\<close> branch (null for every URL) is not reached\<close>
  "extract_multiple_of task urls =
     foldl (\<lambda>url_to_text (u, result).
              AList.update u (case result of Inl e \<Rightarrow> None | Inr text \<Rightarrow> text) url_to_text)
       [] (zip urls (gather task urls))"

definition extract_multiple ::
  "(string \<Rightarrow> exn + page) \<Rightarrow> string list \<Rightarrow> (string \<times> string option) list" where
  \<comment> \<open>\<open>ArticleExtractor.extract_multiple\<close>: the tasks are \<open>extract_from_url\<close>\<close>
  "extract_multiple fetch urls = extract_multiple_of (extract_from_url fetch) urls"

section \<open>groq\_client.py\<close>

record related_content =
  rc_title :: string
  rc_source :: string
  rc_url :: string
  rc_text :: string

definition fallback_parse :: dict where
  \<comment> \<open>the result returned under \<open>except json.JSONDecodeError\<close>\<close>
  "fallback_parse =
     [(''verdict'', JStr ''Unverified''), (''confidence'', JInt 0),
      (''summary'', JStr ''Unable to verify: AI response parsing failed''),
      (''evidence_links'', JArr [])]"

definition fallback_error :: "exn \<Rightarrow> dict" where
  \<comment> \<open>the result returned under the outer \<open>except Exception\<close>\<close>
  "fallback_error e =
     [(''verdict'', JStr ''Unverified''), (''confidence'', JInt 0),
      (''summary'', JStr (''Verification failed due to technical error: '' @ str_exn e)),
      (''evidence_links'', JArr [])]"

definition required_fields :: "string list" where
  "required_fields = [''verdict'', ''confidence'', ''summary'']"

fun check_required :: "runtime \<Rightarrow> json \<Rightarrow> string list \<Rightarrow> exn + unit" where
  "check_required rt result [] = Inr ()"
| "check_required rt result (field # remaining) =
     (case py_in rt field result of
        Inl e \<Rightarrow> Inl e
      | Inr present \<Rightarrow>
          if \<not> present then Inl (ValueError (''Missing required field: '' @ field))
          else check_required rt result remaining)"

definition split_second :: "runtime \<Rightarrow> string \<Rightarrow> string \<Rightarrow> exn + string" where
  \<comment> \<open>\<open>s.split(sep)[1]\<close>\<close>
  "split_second rt sep s =
     (case find_sep sep [] s of
        None \<Rightarrow> Inl (IndexError (interp_text rt OpIndex (JArr [JStr s])))
      | Some (a, b) \<Rightarrow> Inr (split_first sep b))"

definition unfence :: "runtime \<Rightarrow> string \<Rightarrow> exn + string" where
  \<comment> \<open>the JSON text taken out of a markdown code block\<close>
  "unfence rt response_text =
     (if contains ''```json'' response_text
      then (case split_second rt ''```json'' response_text of
              Inl e \<Rightarrow> Inl e
            | Inr t \<Rightarrow> Inr (strip (split_first ''```'' t)))
      else if contains ''```'' response_text
      then (case split_second rt ''```'' response_text of
              Inl e \<Rightarrow> Inl e
            | Inr t \<Rightarrow> Inr (strip (split_first ''```'' t)))
      else Inr response_text)"

definition store_confidence :: "dict \<Rightarrow> int \<Rightarrow> dict" where
  \<comment> \<open>the assignments to \<open>result\<close> once \<open>int(result["confidence"])\<close> has returned \<open>n\<close>\<close>
  "store_confidence d n =
     (let d = AList.update ''confidence'' (JInt n) d;
          d = AList.update ''confidence'' (JInt (max 0 (min 100 n))) d
      in if ''evidence_links'' \<notin> fst ` set d
         then AList.update ''evidence_links'' (JArr []) d else d)"

definition parse_response :: "runtime \<Rightarrow> string \<Rightarrow> exn + dict" where
  \<comment> \<open>the inner \<open>try\<close> block of \<open>GroqClient.verify_news\<close>\<close>
  "parse_response rt response_text =
     (case unfence rt response_text of
        Inl e \<Rightarrow> Inl e
      | Inr json_text \<Rightarrow>
     (case json_loads rt json_text of
        Inl e \<Rightarrow> Inl e
      | Inr result \<Rightarrow>
     (case check_required rt result required_fields of
        Inl e \<Rightarrow> Inl e
      | Inr u \<Rightarrow>
     (case py_getitem rt result ''confidence'' of
        Inl e \<Rightarrow> Inl e
      | Inr c \<Rightarrow>
     (case py_int rt c of
        Inl e \<Rightarrow> Inl e
      | Inr n \<Rightarrow>
     (case result of
        JObj d \<Rightarrow> Inr (store_confidence d n)
      | v \<Rightarrow> Inl (TypeError (interp_text rt OpGetItem v))))))))"

definition groq_verify_news ::
  "runtime \<Rightarrow> (string \<Rightarrow> related_content list \<Rightarrow> bool \<Rightarrow> exn + string option list) \<Rightarrow>
     string \<Rightarrow> related_content list \<Rightarrow> bool \<Rightarrow> exn + dict" where
  \<comment> \<open>\<open>GroqClient.verify_news\<close>; the second argument is the analysis collaborator: asked
      with the prompt built from the three arguments, it raises or returns the message
      content of each choice of the completion\<close>
  "groq_verify_news rt complete main_content related_articles is_url =
     (case
        (case complete main_content related_articles is_url of
           Inl e \<Rightarrow> Inl e
         | Inr choices \<Rightarrow>
        (case choices of
           [] \<Rightarrow> Inl (IndexError (interp_text rt OpIndex (JArr [])))
         | content # others \<Rightarrow>
        (case content of
           None \<Rightarrow> Inl (AttributeError (interp_text rt OpStrip JNull))
         | Some response_text \<Rightarrow>
        (case parse_response rt (strip response_text) of
           Inl (JSONDecodeError m) \<Rightarrow> Inr fallback_parse
         | Inl e \<Rightarrow> Inl e
         | Inr result \<Rightarrow> Inr result))))
      of
        Inl e \<Rightarrow> Inr (fallback_error e)
      | Inr result \<Rightarrow> Inr result)"

section \<open>main.py\<close>

record services =
  extract_svc :: "string \<Rightarrow> exn + string option"
  search_svc :: "string \<Rightarrow> int \<Rightarrow> exn + article list"
  analyze_svc :: "string \<Rightarrow> related_content list \<Rightarrow> bool \<Rightarrow> exn + dict"

record HTTPException =
  status_code :: nat
  detail :: string

datatype raised = Http HTTPException | Exc exn

record resolved =
  main_content :: string
  is_url :: bool
  extraction_failed :: bool

definition resolve_content :: "runtime \<Rightarrow> services \<Rightarrow> string \<Rightarrow> exn + resolved" where
  \<comment> \<open>step 1 of the endpoint \<open>verify_news\<close>\<close>
  "resolve_content rt svc content =
     (if \<not> startswith_any content [''http://'', ''https://'']
      then Inr \<lparr>main_content = content, is_url = False, extraction_failed = False\<rparr>
      else
        (case
           (case extract_svc svc content of
              Inl e \<Rightarrow> Inl e
            | Inr extracted \<Rightarrow>
                (case extracted of
                   Some text \<Rightarrow>
                     if text \<noteq> [] \<and> length text > 50
                     then Inr \<lparr>main_content = text, is_url = True, extraction_failed = False\<rparr>
                     else (case urlparse rt content of
                             Inl e \<Rightarrow> Inl e
                           | Inr parsed \<Rightarrow>
                               Inr \<lparr>main_content =
                                      ''News article from '' @ netloc parsed @ '' - '' @
                                      map (\<lambda>c. if c = CHR ''/'' then CHR '' '' else c) (path parsed),
                                    is_url = True, extraction_failed = True\<rparr>)
                 | None \<Rightarrow>
                     (case urlparse rt content of
                        Inl e \<Rightarrow> Inl e
                      | Inr parsed \<Rightarrow>
                          Inr \<lparr>main_content =
                                 ''News article from '' @ netloc parsed @ '' - '' @
                                 map (\<lambda>c. if c = CHR ''/'' then CHR '' '' else c) (path parsed),
                               is_url = True, extraction_failed = True\<rparr>)))
         of
           Inr r \<Rightarrow> Inr r
         | Inl e \<Rightarrow>
             (case urlparse rt content of
                Inl e' \<Rightarrow> Inl e'
              | Inr parsed \<Rightarrow>
                  Inr \<lparr>main_content = ''News from '' @ netloc parsed,
                       is_url = True, extraction_failed = True\<rparr>)))"

fun collect_evidence ::
  "(string \<Rightarrow> exn + string option) \<Rightarrow> article list \<Rightarrow> related_content list \<times> string list \<Rightarrow>
     related_content list \<times> string list" where
  \<comment> \<open>step 3: the loop over \<open>related_articles\<close>, from the lists built so far\<close>
  "collect_evidence extract [] (related_contents, links) =
     (related_contents, links)"
| "collect_evidence extract (a # rest) (related_contents, links) =
     (case extract (url a) of
        Inl e \<Rightarrow> collect_evidence extract rest (related_contents, links)
      | Inr None \<Rightarrow> collect_evidence extract rest (related_contents, links)
      | Inr (Some article_text) \<Rightarrow>
          if article_text \<noteq> []
          then collect_evidence extract rest
                 (related_contents @
                    [\<lparr>rc_title = title a, rc_source = source a, rc_url = url a,
                      rc_text = take 1000 article_text\<rparr>],
                  links @ [url a])
          else collect_evidence extract rest (related_contents, links))"

definition analyze_and_respond ::
  "runtime \<Rightarrow> services \<Rightarrow> resolved \<Rightarrow> article list \<Rightarrow> raised + VerifyResponse" where
  \<comment> \<open>steps 3 and 4; the verdict of the analysis is looked up for the log before the
      response is built\<close>
  "analyze_and_respond rt svc r related_articles =
     (case collect_evidence (extract_svc svc) related_articles ([], []) of
        (related_contents, links) \<Rightarrow>
          (case
             (case analyze_svc svc (main_content r) related_contents (is_url r) of
                Inl e \<Rightarrow> Inl e
              | Inr analysis \<Rightarrow>
                  (let analysis =
                         AList.update ''evidence_links'' (JArr (map JStr (take 5 links)))
                           analysis
                   in case map_of analysis ''verdict'' of
                        None \<Rightarrow> Inl (KeyError ''verdict'')
                      | Some v \<Rightarrow> new_VerifyResponse rt analysis))
           of
             Inr response \<Rightarrow> Inr response
           | Inl e \<Rightarrow>
               Inl (Http \<lparr>status_code = 500,
                          detail = ''AI analysis failed: '' @ str_exn e\<rparr>)))"

definition search_failed_response :: "runtime \<Rightarrow> string \<Rightarrow> exn \<Rightarrow> exn + VerifyResponse" where
  \<comment> \<open>the response built when both the extraction and the search failed\<close>
  "search_failed_response rt content e =
     new_VerifyResponse rt
       [(''verdict'', JStr ''Unverified''), (''confidence'', JInt 0),
        (''summary'', JStr (''Unable to extract content from the URL and search for related articles failed. Please try: 1) Check if the URL is accessible, 2) Try copying the article text directly, or 3) Verify your SerpAPI key is valid. Error: '' @ str_exn e)),
        (''evidence_links'', JArr [JStr content])]"

definition verify_news_body :: "runtime \<Rightarrow> services \<Rightarrow> string \<Rightarrow> raised + VerifyResponse" where
  \<comment> \<open>the outer \<open>try\<close> block of the endpoint\<close>
  "verify_news_body rt svc content =
     (case resolve_content rt svc content of
        Inl e \<Rightarrow> Inl (Exc e)
      | Inr r \<Rightarrow>
          (let search_query = (if \<not> extraction_failed r then take 500 (main_content r)
                               else content)
           in case search_svc svc search_query 10 of
                Inr related_articles \<Rightarrow> analyze_and_respond rt svc r related_articles
              | Inl e \<Rightarrow>
                  if extraction_failed r \<and> is_url r
                  then (case search_failed_response rt content e of
                          Inl e' \<Rightarrow> Inl (Exc e')
                        | Inr response \<Rightarrow> Inr response)
                  else analyze_and_respond rt svc r []))"

definition verify_news :: "runtime \<Rightarrow> services \<Rightarrow> string \<Rightarrow> HTTPException + VerifyResponse" where
  \<comment> \<open>the endpoint \<open>POST /verify\<close> on the validated content of the request: the response
      sent with status 200, or the \<open>HTTPException\<close> raised\<close>
  "verify_news rt svc content =
     (case verify_news_body rt svc content of
        Inr response \<Rightarrow> Inr response
      | Inl (Http h) \<Rightarrow> Inl h
      | Inl (Exc e) \<Rightarrow>
          Inl \<lparr>status_code = 500,
               detail = ''Verification process failed: '' @ str_exn e\<rparr>)"

definition live_services ::
  "runtime \<Rightarrow> (string \<Rightarrow> exn + page) \<Rightarrow> (string \<Rightarrow> int \<Rightarrow> exn + search_results) \<Rightarrow>
     (string \<Rightarrow> related_content list \<Rightarrow> bool \<Rightarrow> exn + string option list) \<Rightarrow> services" where
  \<comment> \<open>the three services that \<open>lifespan\<close> creates, over their collaborators\<close>
  "live_services rt fetch google_search complete =
     \<lparr>extract_svc = extract_from_url fetch,
      search_svc = search_related_news google_search,
      analyze_svc = groq_verify_news rt complete\<rparr>"

section \<open>Worked inputs\<close>

text \<open>
  The module globals \<open>groq_client\<close>, \<open>news_searcher\<close> and \<open>article_extractor\<close> are \<open>None\<close>
  until \<open>lifespan\<close> has run (the state that \<open>health_check\<close> tests for): a method call on any
  of them raises \<open>AttributeError\<close>.
\<close>

definition uninitialised :: services where
  "uninitialised =
     \<lparr>extract_svc = (\<lambda>u. Inl (AttributeError ('''NoneType' object has no attribute 'extract_from_url'' @ [CHR 0x27]))),
      search_svc = (\<lambda>q n. Inl (AttributeError ('''NoneType' object has no attribute 'search_related_news'' @ [CHR 0x27]))),
      analyze_svc = (\<lambda>m r u. Inl (AttributeError ('''NoneType' object has no attribute 'verify_news'' @ [CHR 0x27])))\<rparr>"

text \<open>
  A runtime for the worked examples: the library functions at the inputs the examples
  use, \<open>urlparse\<close> raising on the unmatched bracket of \<open>http://[invalid-url\<close> and
  \<open>json.loads\<close> reading the number \<open>1e400\<close>, too large for a float, as infinity.
\<close>

definition example_runtime :: runtime where
  "example_runtime =
     \<lparr>urlparse =
        (\<lambda>u. if u = ''https://news.example.com/story-1''
             then Inr \<lparr>netloc = ''news.example.com'', path = ''/story-1''\<rparr>
             else if u = ''http://[invalid-url'' then Inl (ValueError ''Invalid IPv6 URL'')
             else Inr \<lparr>netloc = '''', path = u\<rparr>),
      json_loads =
        (\<lambda>s. if s = ''{\"verdict\": \"True\"}'' then Inr (JObj [(''verdict'', JStr ''True'')])
             else if s = ''{\"verdict\":\"true\",\"confidence\":150,\"summary\":\"x\"}''
             then Inr (JObj [(''verdict'', JStr ''true''), (''confidence'', JInt 150),
                             (''summary'', JStr ''x'')])
             else if s = ''{\"verdict\":\"True\",\"confidence\":\"high\",\"summary\":\"x\"}''
             then Inr (JObj [(''verdict'', JStr ''True''), (''confidence'', JStr ''high''),
                             (''summary'', JStr ''x'')])
             else if s = ''{\"verdict\":\"True\",\"confidence\":true,\"summary\":\"x\"}''
             then Inr (JObj [(''verdict'', JStr ''True''), (''confidence'', JBool True),
                             (''summary'', JStr ''x'')])
             else if s = ''{\"verdict\":\"True\",\"confidence\":1e400,\"summary\":\"x\"}''
             then Inr (JObj [(''verdict'', JStr ''True''), (''confidence'', JFloat PosInf),
                             (''summary'', JStr ''x'')])
             else Inl (JSONDecodeError ''Expecting value: line 1 column 1 (char 0)'')),
      int_of_str =
        (\<lambda>s. Inl (ValueError (''invalid literal for int() with base 10: '' @ [CHR 0x27] @ s @
                                [CHR 0x27]))),
      interp_text =
        (\<lambda>op v. case (op, v) of
                  (OpInt, JFloat PosInf) \<Rightarrow> ''cannot convert float infinity to integer''
                | (OpInt, JFloat NegInf) \<Rightarrow> ''cannot convert float infinity to integer''
                | (OpInt, JFloat NaN) \<Rightarrow> ''cannot convert float NaN to integer''
                | _ \<Rightarrow> ''''),
      pydantic_str = (\<lambda>v. None),
      pydantic_int = (\<lambda>v. None),
      pydantic_text = (\<lambda>fs. '''')\<rparr>"

definition no_page :: "string \<Rightarrow> exn + page" where
  \<comment> \<open>an extraction collaborator that cannot download any page\<close>
  "no_page u = Inl (Error ''Article download failed'')"

definition no_results :: "string \<Rightarrow> int \<Rightarrow> exn + search_results" where
  \<comment> \<open>a search collaborator that finds nothing\<close>
  "no_results q n = Inr \<lparr>news_results = None, organic_results = None\<rparr>"

definition unreachable_model ::
  "string \<Rightarrow> related_content list \<Rightarrow> bool \<Rightarrow> exn + string option list" where
  \<comment> \<open>an analysis collaborator whose network call fails\<close>
  "unreachable_model m r u = Inl (Error ''Connection error.'')"

definition two_results :: "string \<Rightarrow> int \<Rightarrow> exn + search_results" where
  \<comment> \<open>a search collaborator that finds two news articles\<close>
  "two_results q n =
     Inr \<lparr>news_results =
            Some [[(''title'', ''A''), (''link'', ''https://a.example/1''), (''source'', ''a'')],
                  [(''title'', ''B''), (''link'', ''https://b.example/2'')]],
          organic_results = None\<rparr>"

definition one_page :: "string \<Rightarrow> exn + page" where
  \<comment> \<open>an extraction collaborator that can download the first of the two only\<close>
  "one_page u =
     (if u = ''https://a.example/1''
      then Inr \<lparr>page_title = ''Cheese'', page_text = ''The moon is rock.''\<rparr>
      else Inl (Error ''Article download failed''))"

definition answering_model ::
  "string \<Rightarrow> related_content list \<Rightarrow> bool \<Rightarrow> exn + string option list" where
  \<comment> \<open>an analysis collaborator whose reply is well-formed, its confidence out of range\<close>
  "answering_model m r u =
     Inr [Some ''{\"verdict\":\"true\",\"confidence\":150,\"summary\":\"x\"}'']"

section \<open>Notions used in the proofs\<close>

definition is_word :: "string \<Rightarrow> bool" where
  \<comment> \<open>a non-empty string without white space\<close>
  "is_word w = (w \<noteq> [] \<and> (\<forall>c\<in>set w. \<not> isspace c))"

section \<open>Splitting and joining words\<close>

lemma split_from_no_space:
  "\<forall>c\<in>set xs. \<not> isspace c \<Longrightarrow> split_from w (xs @ ys) = split_from (w @ xs) ys"
  by (induction xs arbitrary: w) auto

lemma split_from_at_space:
  "isspace c \<Longrightarrow> split_from w (xs @ c # ys) = split_from w xs @ split_from [] ys"
  by (induction xs arbitrary: w) auto

lemma split_from_words:
  "w' \<in> set (split_from w s) \<Longrightarrow> \<forall>c\<in>set w. \<not> isspace c \<Longrightarrow> is_word w'"
proof (induction s arbitrary: w)
  case Nil
  then show ?case by (simp add: is_word_def split: if_splits)
next
  case (Cons a s)
  show ?case
  proof (cases "isspace a")
    case True
    with Cons.prems have "w' \<in> set (split_from [] s) \<or> (w \<noteq> [] \<and> w' = w)"
      by (auto split: if_splits)
    then show ?thesis
    proof
      assume "w' \<in> set (split_from [] s)"
      then show ?thesis using Cons.IH [of "[]"] by simp
    next
      assume "w \<noteq> [] \<and> w' = w"
      then show ?thesis using Cons.prems(2) by (simp add: is_word_def)
    qed
  next
    case False
    with Cons.prems have "w' \<in> set (split_from (w @ [a]) s)" by simp
    moreover have "\<forall>c\<in>set (w @ [a]). \<not> isspace c" using False Cons.prems(2) by simp
    ultimately show ?thesis using Cons.IH [of "w @ [a]"] by blast
  qed
qed

lemma split_ws_words: "w \<in> set (split_ws s) \<Longrightarrow> is_word w"
  using split_from_words [of w "[]" s] by (simp add: split_ws_def)

lemma split_ws_word: "is_word w \<Longrightarrow> split_ws w = [w]"
  using split_from_no_space [of w "[]" "[]"] by (simp add: split_ws_def is_word_def)

lemma isspace_space: "isspace CHR '' ''"
  by (simp add: isspace_def)

lemma split_ws_at_space: "split_ws (xs @ CHR '' '' # ys) = split_ws xs @ split_ws ys"
  by (simp add: split_ws_def split_from_at_space isspace_space)

lemma split_ws_join: "\<forall>w\<in>set ws. is_word w \<Longrightarrow> split_ws (join '' '' ws) = ws"
proof (induction "'' ''" ws rule: join.induct)
  case 1
  then show ?case by (simp add: split_ws_def)
next
  case (2 w)
  then show ?case by (simp add: split_ws_word)
next
  case (3 w v ws)
  then show ?case by (simp add: split_ws_at_space split_ws_word)
qed

lemma join_spaces: "\<forall>w\<in>set ws. is_word w \<Longrightarrow> c \<in> set (join '' '' ws) \<Longrightarrow> isspace c \<Longrightarrow> c = CHR '' ''"
  by (induction "'' ''" ws rule: join.induct) (auto simp: is_word_def)

lemma rsplit1_head_decomp:
  assumes "c \<in> set s"
  shows "\<exists>t. s = rsplit1_head c s @ c # t \<and> c \<notin> set t"
proof -
  let ?P = "\<lambda>x. x \<noteq> c"
  from assms have "dropWhile ?P (rev s) \<noteq> []" by simp
  then obtain y rest where d: "dropWhile ?P (rev s) = y # rest" by (cases "dropWhile ?P (rev s)") auto
  then have "y = c" using hd_dropWhile [of ?P "rev s"] by auto
  have "rev s = takeWhile ?P (rev s) @ dropWhile ?P (rev s)" by simp
  then have "rev s = takeWhile ?P (rev s) @ c # rest" using d \<open>y = c\<close> by simp
  then have "s = rev rest @ c # rev (takeWhile ?P (rev s))"
    by (metis rev_append rev.simps(2) rev_rev_ident append.assoc append_Cons append_Nil)
  moreover have "rsplit1_head c s = rev rest" using assms d by (simp add: rsplit1_head_def)
  moreover have "c \<notin> set (rev (takeWhile ?P (rev s)))" by (auto dest: set_takeWhileD)
  ultimately show ?thesis by metis
qed

lemma length_rsplit1_head: "length (rsplit1_head c s) \<le> length s"
  using length_dropWhile_le [of "\<lambda>x. x \<noteq> c" "rev s"] by (auto simp: rsplit1_head_def)

lemma append_sep_cases:
  "c \<notin> set w \<Longrightarrow> r @ c # s = w @ c # q \<Longrightarrow>
     (r = w \<and> s = q) \<or> (\<exists>r'. r = w @ c # r' \<and> r' @ c # s = q)"
proof (induction w arbitrary: r)
  case Nil
  then show ?case by (cases r) auto
next
  case (Cons a w)
  then show ?case by (cases r) auto
qed

lemma join_cut_whole_words:
  "\<forall>w\<in>set ws. is_word w \<Longrightarrow> join '' '' ws = r @ CHR '' '' # s \<Longrightarrow>
     \<exists>k. 0 < k \<and> k < length ws \<and> r = join '' '' (take k ws)"
proof (induction "'' ''" ws arbitrary: r rule: join.induct)
  case 1
  then show ?case by simp
next
  case (2 w)
  then show ?case using isspace_space by (auto simp: is_word_def)
next
  case (3 w v ws)
  have nw: "CHR '' '' \<notin> set w" using 3(2) isspace_space by (auto simp: is_word_def)
  from 3(3) have "r @ CHR '' '' # s = w @ CHR '' '' # join '' '' (v # ws)" by simp
  from append_sep_cases [OF nw this] show ?case
  proof
    assume "r = w \<and> s = join '' '' (v # ws)"
    then have "r = join '' '' (take 1 (w # v # ws))" by simp
    then show ?thesis by (intro exI [of _ 1]) simp
  next
    assume "\<exists>r'. r = w @ CHR '' '' # r' \<and> r' @ CHR '' '' # s = join '' '' (v # ws)"
    then obtain r' where r: "r = w @ CHR '' '' # r'" and q: "join '' '' (v # ws) = r' @ CHR '' '' # s"
      by auto
    from 3(1) [OF _ q] 3(2) obtain k where k: "0 < k" "k < length (v # ws)" "r' = join '' '' (take k (v # ws))"
      by auto
    from k(1) obtain j where j: "k = Suc j" by (cases k) auto
    have "r = join '' '' (take (Suc k) (w # v # ws))" using r k(3) j by simp
    then show ?thesis using k(2) by (intro exI [of _ "Suc k"]) simp
  qed
qed


lemma startswith_take:
  "length p \<le> n \<Longrightarrow> startswith (take n s) p = startswith s p"
  by (simp add: startswith_def min_def)

lemma join_first_word:
  "\<forall>w\<in>set ws. is_word w \<Longrightarrow> CHR '' '' \<notin> set (take n (join '' '' ws)) \<Longrightarrow>
     n < length (join '' '' ws) \<Longrightarrow> \<exists>w\<in>set ws. take n (join '' '' ws) = take n w"
proof (induction "'' ''" ws rule: join.induct)
  case 1
  then show ?case by simp
next
  case (2 w)
  then show ?case by simp
next
  case (3 w v ws)
  have "n \<le> length w"
  proof (rule ccontr)
    assume "\<not> n \<le> length w"
    then have "CHR '' '' \<in> set (take n (join '' '' (w # v # ws)))"
      by (cases "n - length w") auto
    with 3(3) show False by simp
  qed
  then show ?case by simp
qed

lemma prepare_search_query_shape:
  fixes content :: string
  defines "ws \<equiv> query_words content"
  defines "q \<equiv> join '' '' ws"
  defines "r \<equiv> prepare_search_query content"
  shows "(\<forall>w\<in>set (split_ws r). \<not> startswith_any w url_prefixes)"
    and "length r \<le> 150"
    and "length q \<le> 150 \<longrightarrow> r = q"
    and "150 < length q \<and> CHR '' '' \<in> set (take 150 q) \<longrightarrow>
           (\<exists>t. take 150 q = r @ CHR '' '' # t \<and> CHR '' '' \<notin> set t) \<and>
           (\<exists>k. 0 < k \<and> k < length ws \<and> r = join '' '' (take k ws))"
    and "150 < length q \<and> CHR '' '' \<notin> set (take 150 q) \<longrightarrow> r = take 150 q"
proof -
  have words: "\<forall>w\<in>set ws. is_word w"
    by (auto simp: ws_def query_words_def dest: split_ws_words)
  have clean: "\<forall>w\<in>set ws. \<not> startswith_any w url_prefixes"
    by (simp add: ws_def query_words_def)
  have r: "r = (if 150 < length q then rsplit1_head CHR '' '' (take 150 q) else q)"
    by (simp add: r_def q_def ws_def prepare_search_query_def Let_def)
  show len: "length r \<le> 150"
    using length_rsplit1_head [of "CHR '' ''" "take 150 q"] by (simp add: r)
  show small: "length q \<le> 150 \<longrightarrow> r = q" by (simp add: r)
  show nospace: "150 < length q \<and> CHR '' '' \<notin> set (take 150 q) \<longrightarrow> r = take 150 q"
    by (simp add: r rsplit1_head_def)
  show cut: "150 < length q \<and> CHR '' '' \<in> set (take 150 q) \<longrightarrow>
           (\<exists>t. take 150 q = r @ CHR '' '' # t \<and> CHR '' '' \<notin> set t) \<and>
           (\<exists>k. 0 < k \<and> k < length ws \<and> r = join '' '' (take k ws))"
  proof
    assume a: "150 < length q \<and> CHR '' '' \<in> set (take 150 q)"
    then have r': "r = rsplit1_head CHR '' '' (take 150 q)" by (simp add: r)
    from a rsplit1_head_decomp [of "CHR '' ''" "take 150 q"] obtain t
      where t: "take 150 q = r @ CHR '' '' # t" "CHR '' '' \<notin> set t" using r' by auto
    have "q = take 150 q @ drop 150 q" by simp
    then have "q = r @ CHR '' '' # (t @ drop 150 q)" using t(1) by simp
    then have "join '' '' ws = r @ CHR '' '' # (t @ drop 150 q)" by (simp add: q_def)
    from join_cut_whole_words [OF words this] t
    show "(\<exists>t. take 150 q = r @ CHR '' '' # t \<and> CHR '' '' \<notin> set t) \<and>
           (\<exists>k. 0 < k \<and> k < length ws \<and> r = join '' '' (take k ws))" by blast
  qed
  show "\<forall>w\<in>set (split_ws r). \<not> startswith_any w url_prefixes"
  proof (cases "150 < length q")
    case False
    then have "r = q" by (simp add: r)
    then have "split_ws r = ws" using split_ws_join [OF words] by (simp add: q_def)
    then show ?thesis using clean by simp
  next
    case True
    show ?thesis
    proof (cases "CHR '' '' \<in> set (take 150 q)")
      case True
      with \<open>150 < length q\<close> cut obtain k where "r = join '' '' (take k ws)" by blast
      moreover have "\<forall>w\<in>set (take k ws). is_word w" using words by (auto dest: in_set_takeD)
      ultimately have "split_ws r = take k ws" using split_ws_join by simp
      then show ?thesis using clean by (auto dest: in_set_takeD)
    next
      case False
      with True nospace have rt: "r = take 150 q" by simp
      from join_first_word [OF words, of 150] False True obtain w
        where w: "w \<in> set ws" "take 150 q = take 150 w" by (auto simp: q_def)
      have "\<forall>c\<in>set r. \<not> isspace c"
      proof
        fix c assume c: "c \<in> set r"
        then have "c \<in> set q" using rt by (auto dest: in_set_takeD)
        then have "isspace c \<Longrightarrow> c = CHR '' ''" using join_spaces [OF words] by (simp add: q_def)
        then show "\<not> isspace c" using c False rt by auto
      qed
      moreover have "r \<noteq> []" using rt True by auto
      ultimately have "split_ws r = [r]" using split_ws_word by (simp add: is_word_def)
      moreover have "\<not> startswith_any r url_prefixes"
        using clean w by (simp add: rt startswith_any_def url_prefixes_def startswith_take)
      ultimately show ?thesis by simp
    qed
  qed
qed


section \<open>Query preparation\<close>

text \<open>
  Claim C8, as the code has it. For every input string the prepared search query contains no
  token that starts with \<open>http://\<close>, \<open>https://\<close> or \<open>www.\<close> and has at most 150 characters.
  A query of at most 150 characters is returned whole. A longer one is cut back to just
  before the last space among its first 150 characters, which leaves whole words only,
  when these 150 characters contain a space; when they are one unbroken word, the query is
  that word's first 150 characters.
\<close>

theorem prepare_search_query_cut:
  "(\<forall>w\<in>set (split_ws (prepare_search_query content)). \<not> startswith_any w url_prefixes) \<and>
   length (prepare_search_query content) \<le> 150 \<and>
   (length (join '' '' (query_words content)) \<le> 150 \<longrightarrow>
      prepare_search_query content = join '' '' (query_words content)) \<and>
   (150 < length (join '' '' (query_words content)) \<and>
    CHR '' '' \<in> set (take 150 (join '' '' (query_words content))) \<longrightarrow>
      (\<exists>t. take 150 (join '' '' (query_words content)) =
             prepare_search_query content @ CHR '' '' # t \<and> CHR '' '' \<notin> set t) \<and>
      (\<exists>k. 0 < k \<and> k < length (query_words content) \<and>
           prepare_search_query content = join '' '' (take k (query_words content)))) \<and>
   (150 < length (join '' '' (query_words content)) \<and>
    CHR '' '' \<notin> set (take 150 (join '' '' (query_words content))) \<longrightarrow>
      prepare_search_query content = take 150 (join '' '' (query_words content)))"
  using prepare_search_query_shape [of content] by blast

theorem prepare_search_query_cut_witness:
  "prepare_search_query ''hello http://x.y world'' = ''hello world'' \<and>
   150 < length (join '' '' (query_words (concat (replicate 40 ''abcd '')))) \<and>
   CHR '' '' \<in> set (take 150 (join '' '' (query_words (concat (replicate 40 ''abcd ''))))) \<and>
   (\<exists>k. 0 < k \<and> k < length (query_words (concat (replicate 40 ''abcd ''))) \<and>
        prepare_search_query (concat (replicate 40 ''abcd '')) =
        join '' '' (take k (query_words (concat (replicate 40 ''abcd ''))))) \<and>
   150 < length (join '' '' (query_words (replicate 200 CHR ''a''))) \<and>
   CHR '' '' \<notin> set (take 150 (join '' '' (query_words (replicate 200 CHR ''a'')))) \<and>
   prepare_search_query (replicate 200 CHR ''a'') =
     take 150 (join '' '' (query_words (replicate 200 CHR ''a'')))"
proof -
  have short: "length (join '' '' (query_words ''hello http://x.y world'')) \<le> 150"
    and q: "join '' '' (query_words ''hello http://x.y world'') = ''hello world''"
    by code_simp+
  have cut: "150 < length (join '' '' (query_words (concat (replicate 40 ''abcd ''))))"
    "CHR '' '' \<in> set (take 150 (join '' '' (query_words (concat (replicate 40 ''abcd '')))))"
    by code_simp+
  have long: "150 < length (join '' '' (query_words (replicate 200 CHR ''a'')))"
    "CHR '' '' \<notin> set (take 150 (join '' '' (query_words (replicate 200 CHR ''a''))))"
    by code_simp+
  from prepare_search_query_cut [of "''hello http://x.y world''"] short
  have "prepare_search_query ''hello http://x.y world'' =
          join '' '' (query_words ''hello http://x.y world'')" by blast
  then have a: "prepare_search_query ''hello http://x.y world'' = ''hello world''"
    by (simp only: q)
  from prepare_search_query_cut [of "concat (replicate 40 ''abcd '')"] cut
  have b: "\<exists>k. 0 < k \<and> k < length (query_words (concat (replicate 40 ''abcd ''))) \<and>
        prepare_search_query (concat (replicate 40 ''abcd '')) =
        join '' '' (take k (query_words (concat (replicate 40 ''abcd ''))))" by blast
  from prepare_search_query_cut [of "replicate 200 CHR ''a''"] long
  have c: "prepare_search_query (replicate 200 CHR ''a'') =
     take 150 (join '' '' (query_words (replicate 200 CHR ''a'')))" by blast
  show ?thesis using a b c cut long by blast
qed

text \<open>
  Claim C8 as stated fails: an input of 200 letters \<open>a\<close> is one word, and the prepared
  query is its first 150 letters, the word cut in the middle.
\<close>

theorem prepare_search_query_mid_word:
  "query_words (replicate 200 CHR ''a'') = [replicate 200 CHR ''a''] \<and>
   prepare_search_query (replicate 200 CHR ''a'') = replicate 150 CHR ''a''"
  by code_simp

section \<open>The verdict of a response\<close>

lemma lower_allowed:
  "lower ''True'' = ''true''" "lower ''False'' = ''false''"
  "lower ''Misleading'' = ''misleading''" "lower ''Unverified'' = ''unverified''"
  by code_simp+

lemma validate_verdict_cases:
  "validate_verdict v \<in> set allowed"
  "v \<in> set allowed \<Longrightarrow> validate_verdict v = v"
  "v \<notin> set allowed \<Longrightarrow> a \<in> set allowed \<Longrightarrow> lower v = lower a \<Longrightarrow> validate_verdict v = a"
  "v \<notin> set allowed \<Longrightarrow> \<forall>a\<in>set allowed. lower v \<noteq> lower a \<Longrightarrow>
     validate_verdict v = ''Unverified''"
  by (auto simp: validate_verdict_def allowed_def lower_allowed)

lemma new_VerifyResponse_Inr:
  assumes "new_VerifyResponse rt d = Inr resp"
  shows "\<exists>v c s l. field_str rt (map_of d ''verdict'') = Some v \<and>
           field_int rt (map_of d ''confidence'') = Some c \<and>
           field_str rt (map_of d ''summary'') = Some s \<and>
           field_str_list rt (map_of d ''evidence_links'') = Some l \<and>
           resp = \<lparr>verdict = validate_verdict v, confidence = c, summary = s,
                   evidence_links = l\<rparr>"
  using assms by (auto simp: new_VerifyResponse_def Let_def split: option.splits)

lemma field_int_range: "field_int rt x = Some c \<Longrightarrow> 0 \<le> c \<and> c \<le> 100"
  by (auto simp: field_int_def split: option.splits json.splits if_splits)

lemma analyze_and_respond_Inr:
  assumes "analyze_and_respond rt svc r related_articles = Inr resp"
  shows "\<exists>analysis.
           analyze_svc svc (main_content r)
             (fst (collect_evidence (extract_svc svc) related_articles ([], []))) (is_url r) =
             Inr analysis \<and>
           new_VerifyResponse rt
             (AList.update ''evidence_links''
                (JArr (map JStr
                   (take 5 (snd (collect_evidence (extract_svc svc) related_articles ([], []))))))
                analysis) = Inr resp"
  using assms
  by (auto simp: analyze_and_respond_def Let_def split: prod.splits sum.splits option.splits)

lemma verify_news_Inr:
  assumes "verify_news rt svc content = Inr resp"
  shows "\<exists>r. resolve_content rt svc content = Inr r \<and>
           ((\<exists>e. search_svc svc (if \<not> extraction_failed r then take 500 (main_content r)
                                  else content) 10 = Inl e \<and>
                 extraction_failed r \<and> is_url r \<and>
                 search_failed_response rt content e = Inr resp) \<or>
            (\<exists>related_articles.
                 (search_svc svc (if \<not> extraction_failed r then take 500 (main_content r)
                                  else content) 10 = Inr related_articles \<or>
                  related_articles = [] \<and> \<not> (extraction_failed r \<and> is_url r) \<and>
                  (\<exists>e. search_svc svc (if \<not> extraction_failed r then take 500 (main_content r)
                                  else content) 10 = Inl e)) \<and>
                 analyze_and_respond rt svc r related_articles = Inr resp))"
proof -
  from assms have body: "verify_news_body rt svc content = Inr resp"
    by (auto simp: verify_news_def split: sum.splits raised.splits)
  then obtain r where r: "resolve_content rt svc content = Inr r"
    by (auto simp: verify_news_body_def split: sum.splits)
  show ?thesis
  proof (cases "search_svc svc (if \<not> extraction_failed r then take 500 (main_content r)
                                  else content) 10")
    case (Inr related_articles)
    with body r have "analyze_and_respond rt svc r related_articles = Inr resp"
      by (simp add: verify_news_body_def Let_def)
    with r Inr show ?thesis by blast
  next
    case (Inl e)
    show ?thesis
    proof (cases "extraction_failed r \<and> is_url r")
      case True
      with body r Inl have "search_failed_response rt content e = Inr resp"
        by (auto simp: verify_news_body_def Let_def split: sum.splits)
      with r Inl True show ?thesis by blast
    next
      case False
      with body r Inl have "analyze_and_respond rt svc r [] = Inr resp"
        by (auto simp: verify_news_body_def Let_def split: sum.splits)
      with r Inl False show ?thesis by blast
    qed
  qed
qed

lemma verify_news_response_fields:
  assumes "verify_news rt svc content = Inr resp"
  shows "verdict resp \<in> set allowed \<and> 0 \<le> confidence resp \<and> confidence resp \<le> 100"
proof -
  from verify_news_Inr [OF assms] obtain d where "new_VerifyResponse rt d = Inr resp"
    using analyze_and_respond_Inr by (fastforce simp: search_failed_response_def)
  from new_VerifyResponse_Inr [OF this] show ?thesis
    using validate_verdict_cases(1) field_int_range by fastforce
qed



section \<open>The analysis stage\<close>

lemma find_sep_contains: "sep \<noteq> [] \<Longrightarrow> contains sep s \<Longrightarrow> \<exists>a b. find_sep sep [] s = Some (a, b)"
  by (auto simp: contains_def)

lemma unfence_total: "\<exists>t. unfence rt s = Inr t"
proof -
  have "\<exists>t. split_second rt sep s = Inr t" if "sep \<noteq> []" "contains sep s" for sep
    using find_sep_contains [OF that] by (auto simp: split_second_def)
  from this [of "''```json''"] this [of "''```''"] show ?thesis
    by (auto simp: unfence_def)
qed

lemma check_required_obj:
  "check_required rt (JObj d) fs =
     (case filter (\<lambda>f. f \<notin> fst ` set d) fs of
        [] \<Rightarrow> Inr ()
      | f # rest \<Rightarrow> Inl (ValueError (''Missing required field: '' @ f)))"
  by (induction fs) auto

lemma py_in_not_decode: "py_in rt k v \<noteq> Inl (JSONDecodeError m)"
  by (cases "(rt, k, v)" rule: py_in.cases) auto

lemma check_required_not_decode: "check_required rt v fs \<noteq> Inl (JSONDecodeError m)"
proof (induction fs)
  case Nil
  then show ?case by simp
next
  case (Cons f fs)
  then show ?case
    using py_in_not_decode [of rt f v m] by (auto split: sum.splits)
qed

lemma check_required_keys:
  "check_required rt (JObj d) fs = Inr u \<Longrightarrow> set fs \<subseteq> fst ` set d"
  by (induction fs) (auto split: if_splits)

lemma py_getitem_Inr: "py_getitem rt v k = Inr c \<Longrightarrow> \<exists>d. v = JObj d \<and> map_of d k = Some c"
  by (cases "(rt, v, k)" rule: py_getitem.cases) (auto split: option.splits)

lemma store_confidence_keys:
  "fst ` set (store_confidence d n) =
     insert ''confidence'' (insert ''evidence_links'' (fst ` set d))"
  by (auto simp: store_confidence_def Let_def dom_update)

lemma store_confidence_value:
  "map_of (store_confidence d n) ''confidence'' = Some (JInt (max 0 (min 100 n)))"
  by (simp add: store_confidence_def Let_def update_conv')

lemma store_confidence_other:
  "k \<noteq> ''confidence'' \<Longrightarrow> k \<in> fst ` set d \<Longrightarrow> map_of (store_confidence d n) k = map_of d k"
  by (force simp: store_confidence_def Let_def update_conv' dom_update)

lemma parse_response_Inr:
  assumes "parse_response rt s = Inr res"
  shows "\<exists>t d c n. unfence rt s = Inr t \<and> json_loads rt t = Inr (JObj d) \<and>
           set required_fields \<subseteq> fst ` set d \<and> map_of d ''confidence'' = Some c \<and>
           py_int rt c = Inr n \<and> res = store_confidence d n"
proof -
  from assms obtain t where t: "unfence rt s = Inr t"
    by (auto simp: parse_response_def split: sum.splits)
  with assms obtain v where v: "json_loads rt t = Inr v"
    by (auto simp: parse_response_def split: sum.splits)
  with assms t obtain u where u: "check_required rt v required_fields = Inr u"
    by (auto simp: parse_response_def split: sum.splits)
  with assms t v obtain c where c: "py_getitem rt v ''confidence'' = Inr c"
    by (auto simp: parse_response_def split: sum.splits)
  from py_getitem_Inr [OF c] obtain d where d: "v = JObj d" "map_of d ''confidence'' = Some c"
    by blast
  from assms t v u c d obtain n where n: "py_int rt c = Inr n" "res = store_confidence d n"
    by (auto simp: parse_response_def split: sum.splits)
  from check_required_keys u d have "set required_fields \<subseteq> fst ` set d" by blast
  with t v d n show ?thesis by blast
qed

lemma parse_response_obj:
  assumes "unfence rt s = Inr t" "json_loads rt t = Inr (JObj d)"
    and "set required_fields \<subseteq> fst ` set d" "map_of d ''confidence'' = Some c"
  shows "parse_response rt s =
           (case py_int rt c of Inl e \<Rightarrow> Inl e | Inr n \<Rightarrow> Inr (store_confidence d n))"
proof -
  from assms(3) have "filter (\<lambda>f. f \<notin> fst ` set d) required_fields = []"
    by (auto simp: filter_empty_conv)
  then have "check_required rt (JObj d) required_fields = Inr ()"
    by (simp add: check_required_obj)
  with assms(1,2,4) show ?thesis
    by (simp add: parse_response_def split: sum.splits)
qed

lemma parse_response_missing:
  assumes "unfence rt s = Inr t" "json_loads rt t = Inr v"
    and "check_required rt v required_fields = Inl e"
  shows "parse_response rt s = Inl e"
  using assms by (simp add: parse_response_def)

lemma parse_response_undecodable:
  assumes "unfence rt s = Inr t" "json_loads rt t = Inl e"
  shows "parse_response rt s = Inl e"
  using assms by (simp add: parse_response_def)

lemma groq_verify_news_reply:
  assumes "complete m rc u = Inr (Some text # others)"
  shows "groq_verify_news rt complete m rc u =
           (case parse_response rt (strip text) of
              Inl (JSONDecodeError msg) \<Rightarrow> Inr fallback_parse
            | Inl e \<Rightarrow> Inr (fallback_error e)
            | Inr result \<Rightarrow> Inr result)"
  using assms by (simp add: groq_verify_news_def split: sum.splits exn.splits)

lemma groq_verify_news_raised:
  assumes "complete m rc u = Inl e"
  shows "groq_verify_news rt complete m rc u = Inr (fallback_error e)"
  using assms by (simp add: groq_verify_news_def)

lemma groq_verify_news_shape:
  "\<exists>result. groq_verify_news rt complete m rc u = Inr result \<and>
     (result = fallback_parse \<or> (\<exists>e. result = fallback_error e) \<or>
      (\<exists>s. parse_response rt s = Inr result))"
proof (cases "complete m rc u")
  case (Inl e)
  then show ?thesis by (auto simp: groq_verify_news_raised)
next
  case (Inr choices)
  show ?thesis
  proof (cases choices)
    case Nil
    with Inr show ?thesis by (auto simp: groq_verify_news_def)
  next
    case (Cons content others)
    show ?thesis
    proof (cases content)
      case None
      with Inr Cons show ?thesis by (auto simp: groq_verify_news_def)
    next
      case (Some reply)
      with Inr Cons have "complete m rc u = Inr (Some reply # others)" by simp
      from groq_verify_news_reply [where complete = complete and m = m and rc = rc and u = u
          and rt = rt, OF this]
      show ?thesis
        by (cases "parse_response rt (strip reply)") (auto split: exn.splits)
    qed
  qed
qed

lemma fallback_keys:
  "fst ` set fallback_parse = {''verdict'', ''confidence'', ''summary'', ''evidence_links''}"
  "fst ` set (fallback_error e) = {''verdict'', ''confidence'', ''summary'', ''evidence_links''}"
  by (auto simp: fallback_parse_def fallback_error_def)

lemma fallback_values:
  "map_of fallback_parse ''verdict'' = Some (JStr ''Unverified'')"
  "map_of fallback_parse ''confidence'' = Some (JInt 0)"
  "map_of (fallback_error e) ''verdict'' = Some (JStr ''Unverified'')"
  "map_of (fallback_error e) ''confidence'' = Some (JInt 0)"
  by (simp_all add: fallback_parse_def fallback_error_def)

lemma parse_response_result:
  assumes "parse_response rt s = Inr result"
  shows "{''verdict'', ''confidence'', ''summary'', ''evidence_links''} \<subseteq> fst ` set result \<and>
         (\<exists>n. map_of result ''confidence'' = Some (JInt n) \<and> 0 \<le> n \<and> n \<le> 100)"
proof -
  from parse_response_Inr [OF assms] obtain d n
    where d: "set required_fields \<subseteq> fst ` set d" "result = store_confidence d n" by blast
  have "map_of result ''confidence'' = Some (JInt (max 0 (min 100 n)))"
    by (simp add: d(2) store_confidence_value)
  moreover have "{''verdict'', ''confidence'', ''summary'', ''evidence_links''} \<subseteq> fst ` set result"
    using d(1) by (auto simp: d(2) store_confidence_keys required_fields_def)
  ultimately show ?thesis by auto
qed

lemma groq_verify_news_result:
  "\<exists>result n. groq_verify_news rt complete m rc u = Inr result \<and>
     {''verdict'', ''confidence'', ''summary'', ''evidence_links''} \<subseteq> fst ` set result \<and>
     map_of result ''confidence'' = Some (JInt n) \<and> 0 \<le> n \<and> n \<le> 100"
proof -
  from groq_verify_news_shape [of rt complete m rc u] obtain result
    where r: "groq_verify_news rt complete m rc u = Inr result"
      and c: "result = fallback_parse \<or> (\<exists>e. result = fallback_error e) \<or>
              (\<exists>s. parse_response rt s = Inr result)" by blast
  from c have "{''verdict'', ''confidence'', ''summary'', ''evidence_links''} \<subseteq> fst ` set result \<and>
         (\<exists>n. map_of result ''confidence'' = Some (JInt n) \<and> 0 \<le> n \<and> n \<le> 100)"
    using parse_response_result fallback_keys fallback_values by (elim disjE exE) auto
  with r show ?thesis by blast
qed

text \<open>
  Claim C9. Whatever the analysis collaborator does (a reply, a malformed reply, an empty
  or null reply, a raised exception), \<open>GroqClient.verify_news\<close> returns a dictionary, never
  an exception, and the dictionary has the keys verdict, confidence, summary and
  evidence\_links.
\<close>

theorem groq_verify_news_total:
  "\<exists>result. groq_verify_news rt complete body related_articles from_url = Inr result \<and>
     ''verdict'' \<in> fst ` set result \<and> ''confidence'' \<in> fst ` set result \<and>
     ''summary'' \<in> fst ` set result \<and> ''evidence_links'' \<in> fst ` set result"
  using groq_verify_news_result [of rt complete body related_articles from_url] by auto

theorem groq_verify_news_total_witness:
  "\<exists>result. groq_verify_news example_runtime unreachable_model ''The moon is made of cheese'' []
       False = Inr result \<and>
     ''verdict'' \<in> fst ` set result \<and> ''confidence'' \<in> fst ` set result \<and>
     ''summary'' \<in> fst ` set result \<and> ''evidence_links'' \<in> fst ` set result"
  using groq_verify_news_total [of example_runtime unreachable_model
      "''The moon is made of cheese''" "[]" False] by simp

text \<open>
  Claim C6 as stated fails for a reply that is JSON but lacks a required key: the summary
  of the result reports a technical error and names the missing field; it is not the
  summary of the parse failure.
\<close>

theorem missing_field_summary:
  "groq_verify_news example_runtime (\<lambda>m r u. Inr [Some ''{\"verdict\": \"True\"}''])
     ''The moon is made of cheese'' [] False =
     Inr [(''verdict'', JStr ''Unverified''), (''confidence'', JInt 0),
          (''summary'', JStr ''Verification failed due to technical error: Missing required field: confidence''),
          (''evidence_links'', JArr [])]"
  by code_simp

text \<open>
  Claim C6, as the code has it. Let the collaborator reply with a text whose JSON part is
  \<open>t\<close>. When \<open>json.loads\<close> rejects \<open>t\<close>, the analysis stage returns verdict Unverified,
  confidence 0 and the summary "Unable to verify: AI response parsing failed". When \<open>t\<close>
  is a JSON object that lacks one of verdict, confidence and summary, it returns verdict
  Unverified, confidence 0 and the summary "Verification failed due to technical error:
  Missing required field: f" for the first missing field \<open>f\<close>; and whenever the check of
  the required fields raises on a JSON value, the result is of this second form, with the
  text of the exception. In no case does the stage raise.
\<close>

theorem malformed_reply_fallback:
  "complete body related_articles from_url = Inr (Some reply # others) \<and>
   unfence rt (strip reply) = Inr t \<longrightarrow>
     (\<forall>msg. json_loads rt t = Inl (JSONDecodeError msg) \<longrightarrow>
        groq_verify_news rt complete body related_articles from_url =
          Inr [(''verdict'', JStr ''Unverified''), (''confidence'', JInt 0),
               (''summary'', JStr ''Unable to verify: AI response parsing failed''),
               (''evidence_links'', JArr [])]) \<and>
     (\<forall>d f rest. json_loads rt t = Inr (JObj d) \<and>
        filter (\<lambda>f. f \<notin> fst ` set d) required_fields = f # rest \<longrightarrow>
        groq_verify_news rt complete body related_articles from_url =
          Inr [(''verdict'', JStr ''Unverified''), (''confidence'', JInt 0),
               (''summary'', JStr (''Verification failed due to technical error: '' @
                                   ''Missing required field: '' @ f)),
               (''evidence_links'', JArr [])]) \<and>
     (\<forall>v e. json_loads rt t = Inr v \<and> check_required rt v required_fields = Inl e \<longrightarrow>
        groq_verify_news rt complete body related_articles from_url =
          Inr [(''verdict'', JStr ''Unverified''), (''confidence'', JInt 0),
               (''summary'', JStr (''Verification failed due to technical error: '' @ str_exn e)),
               (''evidence_links'', JArr [])])"
proof (intro impI, elim conjE)
  assume c: "complete body related_articles from_url = Inr (Some reply # others)"
    and t: "unfence rt (strip reply) = Inr t"
  note g = groq_verify_news_reply [where complete = complete and m = body
      and rc = related_articles and u = from_url and rt = rt, OF c]
  have a: "groq_verify_news rt complete body related_articles from_url = Inr fallback_parse"
    if "json_loads rt t = Inl (JSONDecodeError msg)" for msg
    using parse_response_undecodable [OF t that] by (simp add: g)
  have b: "groq_verify_news rt complete body related_articles from_url = Inr (fallback_error e)"
    if "json_loads rt t = Inr v" "check_required rt v required_fields = Inl e" for v e
  proof -
    have "parse_response rt (strip reply) = Inl e"
      using parse_response_missing [OF t that] .
    moreover have "\<forall>msg. e \<noteq> JSONDecodeError msg"
      using check_required_not_decode that(2) by metis
    ultimately show ?thesis by (cases e) (simp_all add: g)
  qed
  have b': "groq_verify_news rt complete body related_articles from_url =
              Inr (fallback_error (ValueError (''Missing required field: '' @ f)))"
    if "json_loads rt t = Inr (JObj d)"
      "filter (\<lambda>f. f \<notin> fst ` set d) required_fields = f # rest" for d f rest
    using b [OF that(1)] that(2) by (simp add: check_required_obj)
  show "(\<forall>msg. json_loads rt t = Inl (JSONDecodeError msg) \<longrightarrow>
        groq_verify_news rt complete body related_articles from_url =
          Inr [(''verdict'', JStr ''Unverified''), (''confidence'', JInt 0),
               (''summary'', JStr ''Unable to verify: AI response parsing failed''),
               (''evidence_links'', JArr [])]) \<and>
     (\<forall>d f rest. json_loads rt t = Inr (JObj d) \<and>
        filter (\<lambda>f. f \<notin> fst ` set d) required_fields = f # rest \<longrightarrow>
        groq_verify_news rt complete body related_articles from_url =
          Inr [(''verdict'', JStr ''Unverified''), (''confidence'', JInt 0),
               (''summary'', JStr (''Verification failed due to technical error: '' @
                                   ''Missing required field: '' @ f)),
               (''evidence_links'', JArr [])]) \<and>
     (\<forall>v e. json_loads rt t = Inr v \<and> check_required rt v required_fields = Inl e \<longrightarrow>
        groq_verify_news rt complete body related_articles from_url =
          Inr [(''verdict'', JStr ''Unverified''), (''confidence'', JInt 0),
               (''summary'', JStr (''Verification failed due to technical error: '' @ str_exn e)),
               (''evidence_links'', JArr [])])"
    using a b b' by (simp add: fallback_parse_def fallback_error_def)
qed

theorem malformed_reply_fallback_witness:
  "groq_verify_news example_runtime (\<lambda>m r u. Inr [Some ''I cannot answer that'']) ''claim'' []
      False =
     Inr [(''verdict'', JStr ''Unverified''), (''confidence'', JInt 0),
          (''summary'', JStr ''Unable to verify: AI response parsing failed''),
          (''evidence_links'', JArr [])] \<and>
   groq_verify_news example_runtime (\<lambda>m r u. Inr [Some ''{\"verdict\": \"True\"}'']) ''claim'' []
      False =
     Inr [(''verdict'', JStr ''Unverified''), (''confidence'', JInt 0),
          (''summary'', JStr (''Verification failed due to technical error: '' @
                              ''Missing required field: '' @ ''confidence'')),
          (''evidence_links'', JArr [])]"
proof -
  have u1: "unfence example_runtime (strip ''I cannot answer that'') = Inr ''I cannot answer that''"
    and u2: "unfence example_runtime (strip ''{\"verdict\": \"True\"}'') =
               Inr ''{\"verdict\": \"True\"}''"
    by code_simp+
  have j1: "json_loads example_runtime ''I cannot answer that'' =
              Inl (JSONDecodeError ''Expecting value: line 1 column 1 (char 0)'')"
    and j2: "json_loads example_runtime ''{\"verdict\": \"True\"}'' =
              Inr (JObj [(''verdict'', JStr ''True'')])"
    by (simp_all add: example_runtime_def)
  have f2: "filter (\<lambda>f. f \<notin> fst ` set [(''verdict'', JStr ''True'')]) required_fields =
              ''confidence'' # [''summary'']"
    by (simp add: required_fields_def)
  from malformed_reply_fallback [where complete = "\<lambda>m r u. Inr [Some ''I cannot answer that'']"
      and body = "''claim''" and related_articles = "[]" and from_url = False
      and rt = example_runtime and t = "''I cannot answer that''"
      and reply = "''I cannot answer that''" and others = "[]"] u1 j1
  have a: "groq_verify_news example_runtime (\<lambda>m r u. Inr [Some ''I cannot answer that''])
      ''claim'' [] False =
     Inr [(''verdict'', JStr ''Unverified''), (''confidence'', JInt 0),
          (''summary'', JStr ''Unable to verify: AI response parsing failed''),
          (''evidence_links'', JArr [])]"
    by blast
  from malformed_reply_fallback [where complete = "\<lambda>m r u. Inr [Some ''{\"verdict\": \"True\"}'']"
      and body = "''claim''" and related_articles = "[]" and from_url = False
      and rt = example_runtime and t = "''{\"verdict\": \"True\"}''"
      and reply = "''{\"verdict\": \"True\"}''" and others = "[]"] u2 j2 f2
  have b: "groq_verify_news example_runtime (\<lambda>m r u. Inr [Some ''{\"verdict\": \"True\"}''])
      ''claim'' [] False =
     Inr [(''verdict'', JStr ''Unverified''), (''confidence'', JInt 0),
          (''summary'', JStr (''Verification failed due to technical error: '' @
                              ''Missing required field: '' @ ''confidence'')),
          (''evidence_links'', JArr [])]"
    by blast
  show ?thesis using a b by blast
qed

section \<open>The endpoint over the live services\<close>

lemma search_related_news_total: "\<exists>articles. search_related_news google_search q n = Inr articles"
  by (cases "google_search (prepare_search_query q) (min n 10)")
    (simp_all add: search_related_news_def Let_def)

lemma extract_from_url_total:
  "extract_from_url fetch u = Inr None \<or>
   (\<exists>t. extract_from_url fetch u = Inr (Some t) \<and> t \<noteq> [])"
  by (auto simp: extract_from_url_def split: option.splits)

lemma live_services_simps:
  "extract_svc (live_services rt fetch google_search complete) = extract_from_url fetch"
  "search_svc (live_services rt fetch google_search complete) = search_related_news google_search"
  "analyze_svc (live_services rt fetch google_search complete) = groq_verify_news rt complete"
  by (simp_all add: live_services_def)

lemma all_some_strs: "all_some (map (\<lambda>s. field_str rt (Some (JStr s))) ls) = Some ls"
  by (induction ls) (simp_all add: field_str_def)

lemma field_str_list_strs: "field_str_list rt (Some (JArr (map JStr ls))) = Some ls"
  by (simp add: field_str_list_def all_some_strs comp_def)

lemma validate_verdict_Unverified: "validate_verdict ''Unverified'' = ''Unverified''"
  by (simp add: validate_verdict_def allowed_def)

lemma new_VerifyResponse_fallback_error:
  "new_VerifyResponse rt (AList.update ''evidence_links'' (JArr (map JStr ls)) (fallback_error e)) =
     Inr \<lparr>verdict = ''Unverified'', confidence = 0,
          summary = ''Verification failed due to technical error: '' @ str_exn e,
          evidence_links = ls\<rparr>"
proof -
  have d: "AList.update ''evidence_links'' (JArr (map JStr ls)) (fallback_error e) =
     [(''verdict'', JStr ''Unverified''), (''confidence'', JInt 0),
      (''summary'', JStr (''Verification failed due to technical error: '' @ str_exn e)),
      (''evidence_links'', JArr (map JStr ls))]"
    by (simp add: fallback_error_def)
  show ?thesis
    unfolding d
    by (simp add: new_VerifyResponse_def field_str_def field_int_def field_str_list_strs
        validate_verdict_Unverified)
qed

lemma analyze_and_respond_eq:
  "analyze_and_respond rt svc r related_articles =
     (case
        (case analyze_svc svc (main_content r)
                (fst (collect_evidence (extract_svc svc) related_articles ([], []))) (is_url r) of
           Inl e \<Rightarrow> Inl e
         | Inr analysis \<Rightarrow>
             (case map_of analysis ''verdict'' of
                None \<Rightarrow> Inl (KeyError ''verdict'')
              | Some v \<Rightarrow>
                  new_VerifyResponse rt
                    (AList.update ''evidence_links''
                       (JArr (map JStr
                          (take 5
                             (snd (collect_evidence (extract_svc svc) related_articles ([], []))))))
                       analysis)))
      of
        Inr response \<Rightarrow> Inr response
      | Inl e \<Rightarrow>
          Inl (Http \<lparr>status_code = 500, detail = ''AI analysis failed: '' @ str_exn e\<rparr>))"
proof -
  obtain cs ls where c: "collect_evidence (extract_svc svc) related_articles ([], []) = (cs, ls)"
    by force
  show ?thesis
    unfolding analyze_and_respond_def c prod.case fst_conv snd_conv Let_def
    by (simp add: update_conv' split: sum.splits)
qed

lemma verify_news_live:
  assumes "resolve_content rt (live_services rt fetch google_search complete) content = Inr r"
  shows "\<exists>related_articles.
           search_related_news google_search
             (if \<not> extraction_failed r then take 500 (main_content r) else content) 10 =
             Inr related_articles \<and>
           verify_news_body rt (live_services rt fetch google_search complete) content =
             analyze_and_respond rt (live_services rt fetch google_search complete) r
               related_articles"
proof -
  from search_related_news_total obtain related_articles
    where s: "search_related_news google_search
             (if \<not> extraction_failed r then take 500 (main_content r) else content) 10 =
             Inr related_articles" by blast
  then have "verify_news_body rt (live_services rt fetch google_search complete) content =
             analyze_and_respond rt (live_services rt fetch google_search complete) r
               related_articles"
    using assms by (simp add: verify_news_body_def Let_def live_services_simps)
  with s show ?thesis by blast
qed

text \<open>
  Claim C1 as stated fails: with an analysis collaborator whose network call raises, the
  endpoint answers with a response (status 200) of verdict Unverified, not with an error.
\<close>

theorem transport_failure_answered:
  "verify_news example_runtime
     (live_services example_runtime no_page no_results unreachable_model)
     ''The moon is made of cheese'' =
     Inr \<lparr>verdict = ''Unverified'', confidence = 0,
          summary = ''Verification failed due to technical error: Connection error.'',
          evidence_links = []\<rparr>"
  by code_simp

text \<open>
  Claim C1, as the code has it. When every call of the analysis collaborator raises the
  exception \<open>e\<close>, \<open>GroqClient.verify_news\<close> absorbs it, and the endpoint, once it has
  resolved the content, answers with a response and not with an error: verdict Unverified,
  confidence 0, the summary "Verification failed due to technical error:" followed by the
  text of \<open>e\<close>, and at most five evidence links.
\<close>

theorem transport_failure_degrades:
  "resolve_content rt (live_services rt fetch google_search complete) content = Inr r \<and>
   (\<forall>m rc u. complete m rc u = Inl e) \<longrightarrow>
     (\<exists>links. length links \<le> 5 \<and>
        verify_news rt (live_services rt fetch google_search complete) content =
          Inr \<lparr>verdict = ''Unverified'', confidence = 0,
               summary = ''Verification failed due to technical error: '' @ str_exn e,
               evidence_links = links\<rparr>)"
proof (intro impI, elim conjE)
  assume r: "resolve_content rt (live_services rt fetch google_search complete) content = Inr r"
    and c: "\<forall>m rc u. complete m rc u = Inl e"
  from verify_news_live [OF r] obtain related_articles
    where b: "verify_news_body rt (live_services rt fetch google_search complete) content =
             analyze_and_respond rt (live_services rt fetch google_search complete) r
               related_articles" by blast
  let ?links = "take 5 (snd (collect_evidence (extract_from_url fetch) related_articles ([], [])))"
  have g: "groq_verify_news rt complete m rc u = Inr (fallback_error e)" for m rc u
    using c by (simp add: groq_verify_news_raised)
  have "verify_news rt (live_services rt fetch google_search complete) content =
          Inr \<lparr>verdict = ''Unverified'', confidence = 0,
               summary = ''Verification failed due to technical error: '' @ str_exn e,
               evidence_links = ?links\<rparr>"
    by (simp add: verify_news_def b analyze_and_respond_eq live_services_simps g
        new_VerifyResponse_fallback_error fallback_values)
  moreover have "length ?links \<le> 5" by simp
  ultimately show "\<exists>links. length links \<le> 5 \<and>
        verify_news rt (live_services rt fetch google_search complete) content =
          Inr \<lparr>verdict = ''Unverified'', confidence = 0,
               summary = ''Verification failed due to technical error: '' @ str_exn e,
               evidence_links = links\<rparr>" by blast
qed

theorem transport_failure_degrades_witness:
  "\<exists>links. length links \<le> 5 \<and>
     verify_news example_runtime
       (live_services example_runtime no_page no_results unreachable_model)
       ''https://news.example.com/story-1'' =
       Inr \<lparr>verdict = ''Unverified'', confidence = 0,
            summary = ''Verification failed due to technical error: '' @
                      str_exn (Error ''Connection error.''),
            evidence_links = links\<rparr>"
proof -
  have r: "resolve_content example_runtime
       (live_services example_runtime no_page no_results unreachable_model)
       ''https://news.example.com/story-1'' =
       Inr \<lparr>main_content = ''News article from news.example.com -  story-1'', is_url = True,
            extraction_failed = True\<rparr>"
    by code_simp
  have c: "\<forall>m rc u. unreachable_model m rc u = Inl (Error ''Connection error.'')"
    by (simp add: unreachable_model_def)
  from transport_failure_degrades [of example_runtime no_page no_results unreachable_model
      "''https://news.example.com/story-1''" _ "Error ''Connection error.''"] r c
  show ?thesis by blast
qed

lemma float_trunc_sgn:
  "float_trunc m e =
     (if 0 \<le> e then m * 2 ^ nat e else sgn m * (abs m div 2 ^ nat (- e)))"
  by (cases "0 \<le> m") (auto simp: float_trunc_def sgn_if)

text \<open>
  Claim C2 as stated fails twice. A confidence that is the JSON number \<open>1e400\<close> is read by
  \<open>json.loads\<close> as the float infinity: it is a number greater than 100, yet \<open>int\<close> raises on
  it and the result is the fallback, verdict Unverified and confidence 0, not a confidence
  clamped to 100. And a confidence that is the JSON value \<open>true\<close>, which is not a number,
  does not lead to the fallback: \<open>int\<close> converts it to 1 and the verdict is kept.
\<close>

theorem infinite_confidence_not_clamped:
  "json_loads example_runtime ''{\"verdict\":\"True\",\"confidence\":1e400,\"summary\":\"x\"}'' =
     Inr (JObj [(''verdict'', JStr ''True''), (''confidence'', JFloat PosInf),
                (''summary'', JStr ''x'')]) \<and>
   groq_verify_news example_runtime
     (\<lambda>m r u. Inr [Some ''{\"verdict\":\"True\",\"confidence\":1e400,\"summary\":\"x\"}''])
     ''The moon is made of cheese'' [] False =
     Inr [(''verdict'', JStr ''Unverified''), (''confidence'', JInt 0),
          (''summary'', JStr ''Verification failed due to technical error: cannot convert float infinity to integer''),
          (''evidence_links'', JArr [])] \<and>
   verify_news example_runtime
     (live_services example_runtime no_page no_results
        (\<lambda>m r u. Inr [Some ''{\"verdict\":\"True\",\"confidence\":1e400,\"summary\":\"x\"}'']))
     ''The moon is made of cheese'' =
     Inr \<lparr>verdict = ''Unverified'', confidence = 0,
          summary = ''Verification failed due to technical error: cannot convert float infinity to integer'',
          evidence_links = []\<rparr> \<and>
   groq_verify_news example_runtime
     (\<lambda>m r u. Inr [Some ''{\"verdict\":\"True\",\"confidence\":true,\"summary\":\"x\"}''])
     ''The moon is made of cheese'' [] False =
     Inr [(''verdict'', JStr ''True''), (''confidence'', JInt 1), (''summary'', JStr ''x''),
          (''evidence_links'', JArr [])]"
  by code_simp

text \<open>
  Claim C2, as the code has it. Whatever the analysis collaborator returns, the analysis
  stage returns a dictionary whose confidence is an integer between 0 and 100, and so is
  the confidence of every response of the endpoint; over the live services it is the
  confidence of a result of the analysis stage. When the reply is a JSON object with the
  three required keys and confidence value \<open>c\<close>, the confidence of the result is decided by
  \<open>int(c)\<close>. If \<open>c\<close> is an integer, that integer; if it is \<open>true\<close> or \<open>false\<close>, 1 or 0; if it
  is a finite float, the float cut towards zero; if it is a string that \<open>int\<close> parses, the
  number parsed: this number is clamped into the range, and the verdict and the summary
  of the reply are kept. If \<open>c\<close> is null, an array, an object, or a float that is infinite
  or not a number, \<open>int\<close> raises and the result is the fallback with verdict Unverified,
  confidence 0 and the summary "Verification failed due to technical error:" followed by
  the text of the exception; if \<open>c\<close> is a string that \<open>int\<close> rejects, the result is a fallback
  with verdict Unverified and confidence 0.
\<close>

theorem confidence_clamped:
  "(\<exists>result n. groq_verify_news rt complete body related_articles from_url = Inr result \<and>
      map_of result ''confidence'' = Some (JInt n) \<and> 0 \<le> n \<and> n \<le> 100) \<and>
   (\<forall>reply others t d c.
      complete body related_articles from_url = Inr (Some reply # others) \<and>
      unfence rt (strip reply) = Inr t \<and> json_loads rt t = Inr (JObj d) \<and>
      ''verdict'' \<in> fst ` set d \<and> ''summary'' \<in> fst ` set d \<and>
      map_of d ''confidence'' = Some c \<longrightarrow>
        (\<forall>n. (c = JInt n \<or> c = JBool True \<and> n = 1 \<or> c = JBool False \<and> n = 0 \<or>
              (\<exists>m e. c = JFloat (Finite m e) \<and>
                     n = (if 0 \<le> e then m * 2 ^ nat e
                          else sgn m * (abs m div 2 ^ nat (- e)))) \<or>
              (\<exists>s. c = JStr s \<and> int_of_str rt s = Inr n)) \<longrightarrow>
           (\<exists>result. groq_verify_news rt complete body related_articles from_url = Inr result \<and>
              map_of result ''confidence'' = Some (JInt (max 0 (min 100 n))) \<and>
              map_of result ''verdict'' = map_of d ''verdict'' \<and>
              map_of result ''summary'' = map_of d ''summary'')) \<and>
        (c = JNull \<or> c = JFloat PosInf \<or> c = JFloat NegInf \<or> c = JFloat NaN \<or>
         (\<exists>xs. c = JArr xs) \<or> (\<exists>items. c = JObj items) \<longrightarrow>
           groq_verify_news rt complete body related_articles from_url =
             Inr [(''verdict'', JStr ''Unverified''), (''confidence'', JInt 0),
                  (''summary'', JStr (''Verification failed due to technical error: '' @
                                      interp_text rt OpInt c)),
                  (''evidence_links'', JArr [])]) \<and>
        (\<forall>s e. c = JStr s \<and> int_of_str rt s = Inl e \<longrightarrow>
           (\<exists>result. groq_verify_news rt complete body related_articles from_url = Inr result \<and>
              map_of result ''verdict'' = Some (JStr ''Unverified'') \<and>
              map_of result ''confidence'' = Some (JInt 0)))) \<and>
   (\<forall>svc content resp. verify_news rt svc content = Inr resp \<longrightarrow>
      0 \<le> confidence resp \<and> confidence resp \<le> 100) \<and>
   (\<forall>fetch google_search content resp.
      verify_news rt (live_services rt fetch google_search complete) content = Inr resp \<longrightarrow>
        (\<exists>b rc u result. groq_verify_news rt complete b rc u = Inr result \<and>
           map_of result ''confidence'' = Some (JInt (confidence resp))))"
proof -
  have A: "\<exists>result n. groq_verify_news rt complete body related_articles from_url = Inr result \<and>
      map_of result ''confidence'' = Some (JInt n) \<and> 0 \<le> n \<and> n \<le> 100"
    using groq_verify_news_result [of rt complete body related_articles from_url] by blast
  have B: "(\<forall>n. (c = JInt n \<or> c = JBool True \<and> n = 1 \<or> c = JBool False \<and> n = 0 \<or>
              (\<exists>m e. c = JFloat (Finite m e) \<and>
                     n = (if 0 \<le> e then m * 2 ^ nat e
                          else sgn m * (abs m div 2 ^ nat (- e)))) \<or>
              (\<exists>s. c = JStr s \<and> int_of_str rt s = Inr n)) \<longrightarrow>
           (\<exists>result. groq_verify_news rt complete body related_articles from_url = Inr result \<and>
              map_of result ''confidence'' = Some (JInt (max 0 (min 100 n))) \<and>
              map_of result ''verdict'' = map_of d ''verdict'' \<and>
              map_of result ''summary'' = map_of d ''summary'')) \<and>
        (c = JNull \<or> c = JFloat PosInf \<or> c = JFloat NegInf \<or> c = JFloat NaN \<or>
         (\<exists>xs. c = JArr xs) \<or> (\<exists>items. c = JObj items) \<longrightarrow>
           groq_verify_news rt complete body related_articles from_url =
             Inr [(''verdict'', JStr ''Unverified''), (''confidence'', JInt 0),
                  (''summary'', JStr (''Verification failed due to technical error: '' @
                                      interp_text rt OpInt c)),
                  (''evidence_links'', JArr [])]) \<and>
        (\<forall>s e. c = JStr s \<and> int_of_str rt s = Inl e \<longrightarrow>
           (\<exists>result. groq_verify_news rt complete body related_articles from_url = Inr result \<and>
              map_of result ''verdict'' = Some (JStr ''Unverified'') \<and>
              map_of result ''confidence'' = Some (JInt 0)))"
    if h: "complete body related_articles from_url = Inr (Some reply # others)"
      "unfence rt (strip reply) = Inr t" "json_loads rt t = Inr (JObj d)"
      "''verdict'' \<in> fst ` set d" "''summary'' \<in> fst ` set d"
      "map_of d ''confidence'' = Some c"
    for reply others t d c
  proof -
    have "''confidence'' \<in> fst ` set d"
      using map_of_SomeD [OF h(6)] by force
    with h(4,5) have req: "set required_fields \<subseteq> fst ` set d"
      by (simp add: required_fields_def)
    note p = parse_response_obj [OF h(2,3) req h(6)]
    note g = groq_verify_news_reply [where complete = complete and m = body
        and rc = related_articles and u = from_url and rt = rt, OF h(1)]
    have 1: "groq_verify_news rt complete body related_articles from_url =
               Inr (store_confidence d n)" if "py_int rt c = Inr n" for n
      using that by (simp add: g p)
    have 2: "groq_verify_news rt complete body related_articles from_url = Inr fallback_parse \<or>
             groq_verify_news rt complete body related_articles from_url = Inr (fallback_error e)"
      if "py_int rt c = Inl e" for e
      using that by (cases e) (simp_all add: g p)
    have v: "map_of (store_confidence d n) ''verdict'' = map_of d ''verdict''"
      and s: "map_of (store_confidence d n) ''summary'' = map_of d ''summary''" for n
      using h(4,5) by (simp_all add: store_confidence_other)
    have conv: "py_int rt c = Inr n"
      if "c = JInt n \<or> c = JBool True \<and> n = 1 \<or> c = JBool False \<and> n = 0 \<or>
              (\<exists>m e. c = JFloat (Finite m e) \<and>
                     n = (if 0 \<le> e then m * 2 ^ nat e
                          else sgn m * (abs m div 2 ^ nat (- e)))) \<or>
              (\<exists>s. c = JStr s \<and> int_of_str rt s = Inr n)" for n
      using that by (elim disjE exE conjE) (simp_all add: float_trunc_sgn)
    have 3: "\<forall>n. (c = JInt n \<or> c = JBool True \<and> n = 1 \<or> c = JBool False \<and> n = 0 \<or>
              (\<exists>m e. c = JFloat (Finite m e) \<and>
                     n = (if 0 \<le> e then m * 2 ^ nat e
                          else sgn m * (abs m div 2 ^ nat (- e)))) \<or>
              (\<exists>s. c = JStr s \<and> int_of_str rt s = Inr n)) \<longrightarrow>
           (\<exists>result. groq_verify_news rt complete body related_articles from_url = Inr result \<and>
              map_of result ''confidence'' = Some (JInt (max 0 (min 100 n))) \<and>
              map_of result ''verdict'' = map_of d ''verdict'' \<and>
              map_of result ''summary'' = map_of d ''summary'')"
    proof (intro allI impI)
      fix n
      assume "c = JInt n \<or> c = JBool True \<and> n = 1 \<or> c = JBool False \<and> n = 0 \<or>
              (\<exists>m e. c = JFloat (Finite m e) \<and>
                     n = (if 0 \<le> e then m * 2 ^ nat e
                          else sgn m * (abs m div 2 ^ nat (- e)))) \<or>
              (\<exists>s. c = JStr s \<and> int_of_str rt s = Inr n)"
      from 1 [OF conv [OF this]]
      have "groq_verify_news rt complete body related_articles from_url =
              Inr (store_confidence d n)" .
      moreover have "map_of (store_confidence d n) ''confidence'' =
                       Some (JInt (max 0 (min 100 n)))"
        by (rule store_confidence_value)
      ultimately show "\<exists>result.
              groq_verify_news rt complete body related_articles from_url = Inr result \<and>
              map_of result ''confidence'' = Some (JInt (max 0 (min 100 n))) \<and>
              map_of result ''verdict'' = map_of d ''verdict'' \<and>
              map_of result ''summary'' = map_of d ''summary''"
        using v [of n] s [of n] by (intro exI [of _ "store_confidence d n"] conjI)
    qed
    have 4: "\<forall>s e. c = JStr s \<and> int_of_str rt s = Inl e \<longrightarrow>
           (\<exists>result. groq_verify_news rt complete body related_articles from_url = Inr result \<and>
              map_of result ''verdict'' = Some (JStr ''Unverified'') \<and>
              map_of result ''confidence'' = Some (JInt 0))"
    proof (intro allI impI)
      fix s e
      assume "c = JStr s \<and> int_of_str rt s = Inl e"
      then have "py_int rt c = Inl e" by simp
      from 2 [OF this]
      show "\<exists>result. groq_verify_news rt complete body related_articles from_url = Inr result \<and>
              map_of result ''verdict'' = Some (JStr ''Unverified'') \<and>
              map_of result ''confidence'' = Some (JInt 0)"
      proof
        assume "groq_verify_news rt complete body related_articles from_url = Inr fallback_parse"
        then show ?thesis
          using fallback_values(1,2) by (intro exI [of _ fallback_parse] conjI)
      next
        assume "groq_verify_news rt complete body related_articles from_url =
                  Inr (fallback_error e)"
        then show ?thesis
          using fallback_values(3,4) [of e] by (intro exI [of _ "fallback_error e"] conjI)
      qed
    qed
    have 5: "c = JNull \<or> c = JFloat PosInf \<or> c = JFloat NegInf \<or> c = JFloat NaN \<or>
         (\<exists>xs. c = JArr xs) \<or> (\<exists>items. c = JObj items) \<longrightarrow>
           groq_verify_news rt complete body related_articles from_url =
             Inr [(''verdict'', JStr ''Unverified''), (''confidence'', JInt 0),
                  (''summary'', JStr (''Verification failed due to technical error: '' @
                                      interp_text rt OpInt c)),
                  (''evidence_links'', JArr [])]"
    proof
      assume "c = JNull \<or> c = JFloat PosInf \<or> c = JFloat NegInf \<or> c = JFloat NaN \<or>
         (\<exists>xs. c = JArr xs) \<or> (\<exists>items. c = JObj items)"
      then show "groq_verify_news rt complete body related_articles from_url =
             Inr [(''verdict'', JStr ''Unverified''), (''confidence'', JInt 0),
                  (''summary'', JStr (''Verification failed due to technical error: '' @
                                      interp_text rt OpInt c)),
                  (''evidence_links'', JArr [])]"
        by (elim disjE exE) (simp_all add: g p fallback_error_def)
    qed
    show ?thesis by (rule conjI [OF 3 conjI [OF 5 4]])
  qed
  have C: "0 \<le> confidence resp \<and> confidence resp \<le> 100"
    if "verify_news rt svc content = Inr resp" for svc content resp
    using verify_news_response_fields [OF that] by blast
  have D: "\<exists>b rc u result. groq_verify_news rt complete b rc u = Inr result \<and>
           map_of result ''confidence'' = Some (JInt (confidence resp))"
    if v: "verify_news rt (live_services rt fetch google_search complete) content = Inr resp"
    for fetch google_search content resp
  proof -
    let ?svc = "live_services rt fetch google_search complete"
    from verify_news_Inr [OF v] obtain r where "resolve_content rt ?svc content = Inr r"
      by blast
    from verify_news_live [OF this] v
    obtain related_articles where "analyze_and_respond rt ?svc r related_articles = Inr resp"
      by (auto simp: verify_news_def split: sum.splits raised.splits)
    from analyze_and_respond_Inr [OF this] obtain b rc u analysis ev
      where a: "groq_verify_news rt complete b rc u = Inr analysis"
        and n: "new_VerifyResponse rt (AList.update ''evidence_links'' ev analysis) = Inr resp"
      by (auto simp: live_services_simps)
    from groq_verify_news_result [of rt complete b rc u] a obtain k
      where k: "map_of analysis ''confidence'' = Some (JInt k)" by auto
    from new_VerifyResponse_Inr [OF n]
    have "field_int rt (map_of (AList.update ''evidence_links'' ev analysis) ''confidence'') =
            Some (confidence resp)" by auto
    then have "confidence resp = k"
      using k by (auto simp: update_conv' field_int_def split: if_splits)
    with a k show ?thesis by blast
  qed
  have B': "\<forall>reply others t d c.
      complete body related_articles from_url = Inr (Some reply # others) \<and>
      unfence rt (strip reply) = Inr t \<and> json_loads rt t = Inr (JObj d) \<and>
      ''verdict'' \<in> fst ` set d \<and> ''summary'' \<in> fst ` set d \<and>
      map_of d ''confidence'' = Some c \<longrightarrow>
        (\<forall>n. (c = JInt n \<or> c = JBool True \<and> n = 1 \<or> c = JBool False \<and> n = 0 \<or>
              (\<exists>m e. c = JFloat (Finite m e) \<and>
                     n = (if 0 \<le> e then m * 2 ^ nat e
                          else sgn m * (abs m div 2 ^ nat (- e)))) \<or>
              (\<exists>s. c = JStr s \<and> int_of_str rt s = Inr n)) \<longrightarrow>
           (\<exists>result. groq_verify_news rt complete body related_articles from_url = Inr result \<and>
              map_of result ''confidence'' = Some (JInt (max 0 (min 100 n))) \<and>
              map_of result ''verdict'' = map_of d ''verdict'' \<and>
              map_of result ''summary'' = map_of d ''summary'')) \<and>
        (c = JNull \<or> c = JFloat PosInf \<or> c = JFloat NegInf \<or> c = JFloat NaN \<or>
         (\<exists>xs. c = JArr xs) \<or> (\<exists>items. c = JObj items) \<longrightarrow>
           groq_verify_news rt complete body related_articles from_url =
             Inr [(''verdict'', JStr ''Unverified''), (''confidence'', JInt 0),
                  (''summary'', JStr (''Verification failed due to technical error: '' @
                                      interp_text rt OpInt c)),
                  (''evidence_links'', JArr [])]) \<and>
        (\<forall>s e. c = JStr s \<and> int_of_str rt s = Inl e \<longrightarrow>
           (\<exists>result. groq_verify_news rt complete body related_articles from_url = Inr result \<and>
              map_of result ''verdict'' = Some (JStr ''Unverified'') \<and>
              map_of result ''confidence'' = Some (JInt 0)))"
    by (intro allI impI, elim conjE) (rule B)
  have C': "\<forall>svc content resp. verify_news rt svc content = Inr resp \<longrightarrow>
      0 \<le> confidence resp \<and> confidence resp \<le> 100"
    using C by (intro allI impI)
  have D': "\<forall>fetch google_search content resp.
      verify_news rt (live_services rt fetch google_search complete) content = Inr resp \<longrightarrow>
        (\<exists>b rc u result. groq_verify_news rt complete b rc u = Inr result \<and>
           map_of result ''confidence'' = Some (JInt (confidence resp)))"
    using D by (intro allI impI)
  show ?thesis by (rule conjI [OF A conjI [OF B' conjI [OF C' D']]])
qed

theorem confidence_clamped_witness:
  "(\<exists>result. groq_verify_news example_runtime
       (\<lambda>m r u. Inr [Some ''{\"verdict\":\"true\",\"confidence\":150,\"summary\":\"x\"}''])
       ''claim'' [] False = Inr result \<and>
      map_of result ''confidence'' = Some (JInt (max 0 (min 100 150)))) \<and>
   (\<exists>result. groq_verify_news example_runtime
       (\<lambda>m r u. Inr [Some ''{\"verdict\":\"True\",\"confidence\":true,\"summary\":\"x\"}''])
       ''claim'' [] False = Inr result \<and>
      map_of result ''confidence'' = Some (JInt (max 0 (min 100 1)))) \<and>
   groq_verify_news example_runtime
       (\<lambda>m r u. Inr [Some ''{\"verdict\":\"True\",\"confidence\":1e400,\"summary\":\"x\"}''])
       ''claim'' [] False =
     Inr [(''verdict'', JStr ''Unverified''), (''confidence'', JInt 0),
          (''summary'', JStr (''Verification failed due to technical error: '' @
                              interp_text example_runtime OpInt (JFloat PosInf))),
          (''evidence_links'', JArr [])] \<and>
   (\<exists>result. groq_verify_news example_runtime
       (\<lambda>m r u. Inr [Some ''{\"verdict\":\"True\",\"confidence\":\"high\",\"summary\":\"x\"}''])
       ''claim'' [] False = Inr result \<and>
      map_of result ''verdict'' = Some (JStr ''Unverified'') \<and>
      map_of result ''confidence'' = Some (JInt 0)) \<and>
   0 \<le> confidence \<lparr>verdict = ''True'', confidence = 100, summary = ''x'',
                      evidence_links = []\<rparr> \<and>
   confidence \<lparr>verdict = ''True'', confidence = 100, summary = ''x'',
                evidence_links = []\<rparr> \<le> 100"
proof -
  let ?r1 = "''{\"verdict\":\"true\",\"confidence\":150,\"summary\":\"x\"}''"
  let ?r2 = "''{\"verdict\":\"True\",\"confidence\":\"high\",\"summary\":\"x\"}''"
  let ?r3 = "''{\"verdict\":\"True\",\"confidence\":true,\"summary\":\"x\"}''"
  let ?r4 = "''{\"verdict\":\"True\",\"confidence\":1e400,\"summary\":\"x\"}''"
  let ?d1 = "[(''verdict'', JStr ''true''), (''confidence'', JInt 150), (''summary'', JStr ''x'')]"
  let ?d2 = "[(''verdict'', JStr ''True''), (''confidence'', JStr ''high''),
              (''summary'', JStr ''x'')]"
  let ?d3 = "[(''verdict'', JStr ''True''), (''confidence'', JBool True),
              (''summary'', JStr ''x'')]"
  let ?d4 = "[(''verdict'', JStr ''True''), (''confidence'', JFloat PosInf),
              (''summary'', JStr ''x'')]"
  have u: "unfence example_runtime (strip ?r1) = Inr ?r1"
    "unfence example_runtime (strip ?r2) = Inr ?r2"
    "unfence example_runtime (strip ?r3) = Inr ?r3"
    "unfence example_runtime (strip ?r4) = Inr ?r4"
    by code_simp+
  have j: "json_loads example_runtime ?r1 = Inr (JObj ?d1)"
    "json_loads example_runtime ?r2 = Inr (JObj ?d2)"
    "json_loads example_runtime ?r3 = Inr (JObj ?d3)"
    "json_loads example_runtime ?r4 = Inr (JObj ?d4)"
    by (simp_all add: example_runtime_def)
  have k: "''verdict'' \<in> fst ` set ?d1" "''summary'' \<in> fst ` set ?d1"
    "map_of ?d1 ''confidence'' = Some (JInt 150)"
    "''verdict'' \<in> fst ` set ?d2" "''summary'' \<in> fst ` set ?d2"
    "map_of ?d2 ''confidence'' = Some (JStr ''high'')"
    "''verdict'' \<in> fst ` set ?d3" "''summary'' \<in> fst ` set ?d3"
    "map_of ?d3 ''confidence'' = Some (JBool True)"
    "''verdict'' \<in> fst ` set ?d4" "''summary'' \<in> fst ` set ?d4"
    "map_of ?d4 ''confidence'' = Some (JFloat PosInf)"
    by simp_all
  have i: "int_of_str example_runtime ''high'' =
       Inl (ValueError (''invalid literal for int() with base 10: '' @ [CHR 0x27] @ ''high'' @
                        [CHR 0x27]))"
    by (simp add: example_runtime_def)
  have v: "verify_news example_runtime
     (live_services example_runtime no_page no_results (\<lambda>m r u. Inr [Some ?r1]))
     ''The moon is made of cheese'' =
     Inr \<lparr>verdict = ''True'', confidence = 100, summary = ''x'', evidence_links = []\<rparr>"
    by code_simp
  note c1 = confidence_clamped [where rt = example_runtime
      and complete = "\<lambda>m r u. Inr [Some ?r1]" and body = "''claim''"
      and related_articles = "[]" and from_url = False]
  note c2 = confidence_clamped [where rt = example_runtime
      and complete = "\<lambda>m r u. Inr [Some ?r2]" and body = "''claim''"
      and related_articles = "[]" and from_url = False]
  note c3 = confidence_clamped [where rt = example_runtime
      and complete = "\<lambda>m r u. Inr [Some ?r3]" and body = "''claim''"
      and related_articles = "[]" and from_url = False]
  note c4 = confidence_clamped [where rt = example_runtime
      and complete = "\<lambda>m r u. Inr [Some ?r4]" and body = "''claim''"
      and related_articles = "[]" and from_url = False]
  note k1 = c1 [THEN conjunct2, THEN conjunct1, rule_format,
      OF conjI [OF refl conjI [OF u(1) conjI [OF j(1) conjI [OF k(1) conjI [OF k(2) k(3)]]]]]]
  note k2 = c2 [THEN conjunct2, THEN conjunct1, rule_format,
      OF conjI [OF refl conjI [OF u(2) conjI [OF j(2) conjI [OF k(4) conjI [OF k(5) k(6)]]]]]]
  note k3 = c3 [THEN conjunct2, THEN conjunct1, rule_format,
      OF conjI [OF refl conjI [OF u(3) conjI [OF j(3) conjI [OF k(7) conjI [OF k(8) k(9)]]]]]]
  note k4 = c4 [THEN conjunct2, THEN conjunct1, rule_format,
      OF conjI [OF refl conjI [OF u(4) conjI [OF j(4) conjI [OF k(10) conjI [OF k(11) k(12)]]]]]]
  from k1 [THEN conjunct1, rule_format, OF disjI1, OF refl]
  have a: "\<exists>result. groq_verify_news example_runtime (\<lambda>m r u. Inr [Some ?r1])
       ''claim'' [] False = Inr result \<and>
      map_of result ''confidence'' = Some (JInt (max 0 (min 100 150)))"
    by (elim exE conjE) (intro exI conjI)
  from k3 [THEN conjunct1, rule_format, OF disjI2, OF disjI1, OF conjI, OF refl refl]
  have a': "\<exists>result. groq_verify_news example_runtime (\<lambda>m r u. Inr [Some ?r3])
       ''claim'' [] False = Inr result \<and>
      map_of result ''confidence'' = Some (JInt (max 0 (min 100 1)))"
    by (elim exE conjE) (intro exI conjI)
  have a'': "groq_verify_news example_runtime (\<lambda>m r u. Inr [Some ?r4]) ''claim'' [] False =
     Inr [(''verdict'', JStr ''Unverified''), (''confidence'', JInt 0),
          (''summary'', JStr (''Verification failed due to technical error: '' @
                              interp_text example_runtime OpInt (JFloat PosInf))),
          (''evidence_links'', JArr [])]"
    by (rule k4 [THEN conjunct2, THEN conjunct1, rule_format, OF disjI2, OF disjI1, OF refl])
  from k2 [THEN conjunct2, THEN conjunct2, rule_format, OF conjI, OF refl i]
  have b: "\<exists>result. groq_verify_news example_runtime (\<lambda>m r u. Inr [Some ?r2])
       ''claim'' [] False = Inr result \<and>
      map_of result ''verdict'' = Some (JStr ''Unverified'') \<and>
      map_of result ''confidence'' = Some (JInt 0)" .
  have c: "0 \<le> confidence \<lparr>verdict = ''True'', confidence = 100, summary = ''x'',
                      evidence_links = []\<rparr> \<and>
   confidence \<lparr>verdict = ''True'', confidence = 100, summary = ''x'',
                evidence_links = []\<rparr> \<le> 100"
    by (rule c1 [THEN conjunct2, THEN conjunct2, THEN conjunct1, rule_format, OF v])
  show ?thesis by (intro conjI a a' a'' b c [THEN conjunct1] c [THEN conjunct2])
qed

section \<open>The evidence loop\<close>

lemma collect_evidence_acc:
  "collect_evidence extract related_articles (cs, ls) =
     (cs @ map (\<lambda>a. \<lparr>rc_title = title a, rc_source = source a, rc_url = url a,
                      rc_text = (case extract (url a) of
                                   Inr (Some t) \<Rightarrow> take 1000 t | _ \<Rightarrow> [])\<rparr>)
             (filter (\<lambda>a. \<exists>t. extract (url a) = Inr (Some t) \<and> t \<noteq> []) related_articles),
      ls @ map url
             (filter (\<lambda>a. \<exists>t. extract (url a) = Inr (Some t) \<and> t \<noteq> []) related_articles))"
proof (induction related_articles arbitrary: cs ls)
  case Nil
  then show ?case by simp
next
  case (Cons a rest)
  show ?case
  proof (cases "extract (url a)")
    case (Inl e)
    then show ?thesis using Cons.IH by simp
  next
    case (Inr x)
    show ?thesis
    proof (cases x)
      case None
      with Inr show ?thesis using Cons.IH by simp
    next
      case (Some t)
      with Inr show ?thesis using Cons.IH by simp
    qed
  qed
qed

lemma collect_evidence_links:
  "snd (collect_evidence extract related_articles ([], [])) =
     map url (filter (\<lambda>a. \<exists>t. extract (url a) = Inr (Some t) \<and> t \<noteq> []) related_articles)"
  by (simp add: collect_evidence_acc)

lemma collect_evidence_aligned:
  "map rc_url (fst (collect_evidence extract related_articles ([], []))) =
     snd (collect_evidence extract related_articles ([], []))"
  by (simp add: collect_evidence_acc comp_def)

lemma new_VerifyResponse_links:
  assumes "new_VerifyResponse rt (AList.update ''evidence_links'' (JArr (map JStr ls)) d) = Inr resp"
  shows "evidence_links resp = ls"
proof -
  from new_VerifyResponse_Inr [OF assms]
  have "field_str_list rt
          (map_of (AList.update ''evidence_links'' (JArr (map JStr ls)) d) ''evidence_links'') =
          Some (evidence_links resp)" by auto
  then show ?thesis by (simp add: update_conv' field_str_list_strs)
qed

lemma analyze_and_respond_links:
  assumes "analyze_and_respond rt svc r related_articles = Inr resp"
  shows "evidence_links resp =
           take 5 (snd (collect_evidence (extract_svc svc) related_articles ([], [])))"
  using analyze_and_respond_Inr [OF assms] new_VerifyResponse_links by blast

text \<open>
  Claim C10. The loop that collects the evidence keeps the two lists aligned: they have the
  same length and the i-th evidence link is the URL of the i-th related content. The related
  contents are what the analysis stage is called with, and the evidence links of the
  response are the first five of these URLs.
\<close>

theorem evidence_links_aligned:
  "(collect_evidence extract related_articles ([], []) = (related_contents, links) \<longrightarrow>
      length links = length related_contents \<and>
      (\<forall>i<length links. links ! i = rc_url (related_contents ! i)) \<and>
      links = map rc_url related_contents) \<and>
   (\<forall>rt svc r resp. analyze_and_respond rt svc r related_articles = Inr resp \<longrightarrow>
      (\<exists>analysis.
         analyze_svc svc (main_content r)
           (fst (collect_evidence (extract_svc svc) related_articles ([], []))) (is_url r) =
           Inr analysis) \<and>
      evidence_links resp =
        take 5 (map rc_url (fst (collect_evidence (extract_svc svc) related_articles ([], [])))))"
proof -
  have a: "length links = length related_contents \<and>
      (\<forall>i<length links. links ! i = rc_url (related_contents ! i)) \<and>
      links = map rc_url related_contents"
    if "collect_evidence extract related_articles ([], []) = (related_contents, links)"
  proof -
    from that collect_evidence_aligned [of "extract" related_articles]
    have "links = map rc_url related_contents" by simp
    then show ?thesis by simp
  qed
  have b: "(\<exists>analysis.
         analyze_svc svc (main_content r)
           (fst (collect_evidence (extract_svc svc) related_articles ([], []))) (is_url r) =
           Inr analysis) \<and>
      evidence_links resp =
        take 5 (map rc_url (fst (collect_evidence (extract_svc svc) related_articles ([], []))))"
    if "analyze_and_respond rt svc r related_articles = Inr resp" for rt svc r resp
    using analyze_and_respond_Inr [OF that] analyze_and_respond_links [OF that]
    by (auto simp: collect_evidence_aligned)
  show ?thesis using a b by blast
qed

theorem evidence_links_aligned_witness:
  "collect_evidence
     (\<lambda>u. if u = ''https://a.example/1'' then Inr (Some ''first text'')
          else if u = ''https://b.example/2'' then Inr None else Inr (Some ''third text''))
     [\<lparr>title = ''A'', url = ''https://a.example/1'', source = ''a'', snippet = '''',
        published_date = ''''\<rparr>,
      \<lparr>title = ''B'', url = ''https://b.example/2'', source = ''b'', snippet = '''',
        published_date = ''''\<rparr>,
      \<lparr>title = ''C'', url = ''https://c.example/3'', source = ''c'', snippet = '''',
        published_date = ''''\<rparr>] ([], []) =
     ([\<lparr>rc_title = ''A'', rc_source = ''a'', rc_url = ''https://a.example/1'',
         rc_text = ''first text''\<rparr>,
       \<lparr>rc_title = ''C'', rc_source = ''c'', rc_url = ''https://c.example/3'',
         rc_text = ''third text''\<rparr>],
      [''https://a.example/1'', ''https://c.example/3'']) \<and>
   [''https://a.example/1'', ''https://c.example/3''] =
     map rc_url
       [\<lparr>rc_title = ''A'', rc_source = ''a'', rc_url = ''https://a.example/1'',
          rc_text = ''first text''\<rparr>,
        \<lparr>rc_title = ''C'', rc_source = ''c'', rc_url = ''https://c.example/3'',
          rc_text = ''third text''\<rparr>]"
proof -
  let ?ext = "\<lambda>u. if u = ''https://a.example/1'' then Inr (Some ''first text'')
          else if u = ''https://b.example/2'' then Inr None else Inr (Some ''third text'')"
  let ?arts = "[\<lparr>title = ''A'', url = ''https://a.example/1'', source = ''a'', snippet = '''',
        published_date = ''''\<rparr>,
      \<lparr>title = ''B'', url = ''https://b.example/2'', source = ''b'', snippet = '''',
        published_date = ''''\<rparr>,
      \<lparr>title = ''C'', url = ''https://c.example/3'', source = ''c'', snippet = '''',
        published_date = ''''\<rparr>]"
  let ?cs = "[\<lparr>rc_title = ''A'', rc_source = ''a'', rc_url = ''https://a.example/1'',
         rc_text = ''first text''\<rparr>,
       \<lparr>rc_title = ''C'', rc_source = ''c'', rc_url = ''https://c.example/3'',
         rc_text = ''third text''\<rparr>]"
  let ?ls = "[''https://a.example/1'', ''https://c.example/3'']"
  have e: "collect_evidence ?ext ?arts ([], []) = (?cs, ?ls)"
    by simp
  from evidence_links_aligned [of "?ext" "?arts" "?cs" "?ls"] e
  have "?ls = map rc_url ?cs" by blast
  with e show ?thesis by blast
qed

section \<open>The evidence links of a response\<close>

lemma search_failed_response_links:
  assumes "search_failed_response rt content e = Inr resp"
  shows "evidence_links resp = [content]"
proof -
  from new_VerifyResponse_Inr [OF assms [unfolded search_failed_response_def]]
  show ?thesis by (auto simp: field_str_list_def field_str_def)
qed

text \<open>
  Claim C4 as stated fails on the response that the endpoint returns early, when the
  extraction of the submitted URL has failed and the search call raises (here: the services
  are not initialised): its one evidence link is the submitted URL, whose extraction
  failed.
\<close>

theorem search_failure_links:
  "verify_news example_runtime uninitialised ''https://news.example.com/story-1'' =
     Inr \<lparr>verdict = ''Unverified'', confidence = 0,
          summary = ''Unable to extract content from the URL and search for related articles failed. Please try: 1) Check if the URL is accessible, 2) Try copying the article text directly, or 3) Verify your SerpAPI key is valid. Error: 'NoneType' object has no attribute 'search_related_news'' @ [CHR 0x27],
          evidence_links = [''https://news.example.com/story-1'']\<rparr> \<and>
   extract_svc uninitialised ''https://news.example.com/story-1'' =
     Inl (AttributeError ('''NoneType' object has no attribute 'extract_from_url'' @ [CHR 0x27]))"
  by code_simp

text \<open>
  Claim C4, as the code has it. Every response of the endpoint has at most five evidence
  links. When the search call returns, they are the first five of the URLs of the related
  articles whose extraction returned a non-empty text, in the order of the search results;
  no URL whose extraction failed is among them. When the search call raises, the response
  returned early after a failed extraction of the submitted URL has that URL as its one
  evidence link, and any other response has none. Over the live services the search call
  always returns.
\<close>

theorem evidence_links_extracted:
  "verify_news rt svc content = Inr resp \<longrightarrow>
     length (evidence_links resp) \<le> 5 \<and>
     (\<exists>r. resolve_content rt svc content = Inr r \<and>
        (case search_svc svc
                (if \<not> extraction_failed r then take 500 (main_content r) else content) 10 of
           Inr related_articles \<Rightarrow>
             evidence_links resp =
               take 5 (map url
                 (filter (\<lambda>a. \<exists>t. extract_svc svc (url a) = Inr (Some t) \<and> t \<noteq> [])
                    related_articles))
         | Inl e \<Rightarrow>
             evidence_links resp = (if extraction_failed r \<and> is_url r then [content] else []))) \<and>
     (\<forall>fetch google_search complete. svc = live_services rt fetch google_search complete \<longrightarrow>
        (\<exists>q related_articles.
           search_related_news google_search q 10 = Inr related_articles \<and>
           evidence_links resp =
             take 5 (map url
               (filter (\<lambda>a. \<exists>t. extract_from_url fetch (url a) = Inr (Some t) \<and> t \<noteq> [])
                  related_articles))))"
proof
  assume v: "verify_news rt svc content = Inr resp"
  from verify_news_Inr [OF v] obtain r where r: "resolve_content rt svc content = Inr r"
    and c: "(\<exists>e. search_svc svc (if \<not> extraction_failed r then take 500 (main_content r)
                                  else content) 10 = Inl e \<and>
                 extraction_failed r \<and> is_url r \<and>
                 search_failed_response rt content e = Inr resp) \<or>
            (\<exists>related_articles.
                 (search_svc svc (if \<not> extraction_failed r then take 500 (main_content r)
                                  else content) 10 = Inr related_articles \<or>
                  related_articles = [] \<and> \<not> (extraction_failed r \<and> is_url r) \<and>
                  (\<exists>e. search_svc svc (if \<not> extraction_failed r then take 500 (main_content r)
                                  else content) 10 = Inl e)) \<and>
                 analyze_and_respond rt svc r related_articles = Inr resp)"
    by blast
  let ?q = "if \<not> extraction_failed r then take 500 (main_content r) else content"
  let ?ok = "\<lambda>a. \<exists>t. extract_svc svc (url a) = Inr (Some t) \<and> t \<noteq> []"
  have shape: "case search_svc svc ?q 10 of
           Inr related_articles \<Rightarrow>
             evidence_links resp = take 5 (map url (filter ?ok related_articles))
         | Inl e \<Rightarrow>
             evidence_links resp = (if extraction_failed r \<and> is_url r then [content] else [])"
  proof (cases "search_svc svc ?q 10")
    case (Inr related_articles)
    with c have "analyze_and_respond rt svc r related_articles = Inr resp" by auto
    from analyze_and_respond_links [OF this] Inr show ?thesis
      by (simp add: collect_evidence_links)
  next
    case (Inl e)
    show ?thesis
    proof (cases "extraction_failed r \<and> is_url r")
      case True
      with c Inl have "search_failed_response rt content e = Inr resp" by auto
      from search_failed_response_links [OF this] Inl True show ?thesis by simp
    next
      case False
      with c Inl have "analyze_and_respond rt svc r [] = Inr resp" by auto
      from analyze_and_respond_links [OF this] Inl False show ?thesis by simp
    qed
  qed
  have len: "length (evidence_links resp) \<le> 5"
    using shape by (cases "search_svc svc ?q 10") (simp_all split: if_splits)
  have live: "\<exists>q related_articles.
           search_related_news google_search q 10 = Inr related_articles \<and>
           evidence_links resp =
             take 5 (map url
               (filter (\<lambda>a. \<exists>t. extract_from_url fetch (url a) = Inr (Some t) \<and> t \<noteq> [])
                  related_articles))"
    if s: "svc = live_services rt fetch google_search complete" for fetch google_search complete
  proof -
    from search_related_news_total obtain related_articles
      where "search_related_news google_search ?q 10 = Inr related_articles" by blast
    with shape show ?thesis unfolding s live_services_simps by auto
  qed
  show "length (evidence_links resp) \<le> 5 \<and>
     (\<exists>r. resolve_content rt svc content = Inr r \<and>
        (case search_svc svc
                (if \<not> extraction_failed r then take 500 (main_content r) else content) 10 of
           Inr related_articles \<Rightarrow>
             evidence_links resp =
               take 5 (map url
                 (filter (\<lambda>a. \<exists>t. extract_svc svc (url a) = Inr (Some t) \<and> t \<noteq> [])
                    related_articles))
         | Inl e \<Rightarrow>
             evidence_links resp = (if extraction_failed r \<and> is_url r then [content] else []))) \<and>
     (\<forall>fetch google_search complete. svc = live_services rt fetch google_search complete \<longrightarrow>
        (\<exists>q related_articles.
           search_related_news google_search q 10 = Inr related_articles \<and>
           evidence_links resp =
             take 5 (map url
               (filter (\<lambda>a. \<exists>t. extract_from_url fetch (url a) = Inr (Some t) \<and> t \<noteq> [])
                  related_articles))))"
    using len r shape live by blast
qed

theorem evidence_links_extracted_witness:
  "verify_news example_runtime
     (live_services example_runtime one_page two_results answering_model)
     ''The moon is made of cheese'' =
     Inr \<lparr>verdict = ''True'', confidence = 100, summary = ''x'',
          evidence_links = [''https://a.example/1'']\<rparr> \<and>
   length (evidence_links
     \<lparr>verdict = ''True'', confidence = 100, summary = ''x'',
      evidence_links = [''https://a.example/1'']\<rparr>) \<le> 5"
proof -
  have v: "verify_news example_runtime
     (live_services example_runtime one_page two_results answering_model)
     ''The moon is made of cheese'' =
     Inr \<lparr>verdict = ''True'', confidence = 100, summary = ''x'',
          evidence_links = [''https://a.example/1'']\<rparr>"
    by code_simp
  from evidence_links_extracted [of example_runtime
      "live_services example_runtime one_page two_results answering_model"
      "''The moon is made of cheese''"] v
  show ?thesis by blast
qed

section \<open>Content resolution\<close>






section \<open>Batch extraction\<close>

lemma update_fresh: "k \<notin> fst ` set al \<Longrightarrow> AList.update k v al = al @ [(k, v)]"
  by (induction al) auto

lemma extract_multiple_fold:
  "distinct urls \<Longrightarrow> set urls \<inter> fst ` set acc = {} \<Longrightarrow>
     foldl (\<lambda>url_to_text (u, result).
              AList.update u (case result of Inl e \<Rightarrow> None | Inr t \<Rightarrow> t) url_to_text)
       acc (zip urls (map task urls)) =
     acc @ map (\<lambda>u. (u, case task u of Inl e \<Rightarrow> None | Inr t \<Rightarrow> t)) urls"
proof (induction urls arbitrary: acc)
  case Nil
  then show ?case by simp
next
  case (Cons u urls)
  from Cons.prems have fresh: "u \<notin> fst ` set acc" by auto
  let ?acc = "acc @ [(u, case task u of Inl e \<Rightarrow> None | Inr t \<Rightarrow> t)]"
  have "set urls \<inter> fst ` set ?acc = {}" using Cons.prems by auto
  with Cons.IH [of ?acc] Cons.prems(1) show ?case
    by (simp add: update_fresh [OF fresh])
qed

lemma extract_multiple_of_distinct:
  "distinct urls \<Longrightarrow>
     extract_multiple_of task urls =
       map (\<lambda>u. (u, case task u of Inl e \<Rightarrow> None | Inr t \<Rightarrow> t)) urls"
  using extract_multiple_fold [of urls "[]" task] by (simp add: extract_multiple_of_def gather_def)

lemma map_of_tabulate:
  "u \<in> set urls \<Longrightarrow> map_of (map (\<lambda>u. (u, f u)) urls) u = Some (f u)"
  by (induction urls) auto

text \<open>
  Claim C5. For a batch of distinct URLs, whatever each task does (raise, return nothing,
  return a text), the mapping has one entry per URL, in all as many as there are URLs. The
  entry of a URL is null when its task raised or returned nothing and is its text otherwise,
  and it is the entry that the URL gets in a batch of its own: the tasks do not affect one
  another. The same holds for \<open>extract_multiple\<close>, whose tasks are \<open>extract_from_url\<close>.
\<close>

theorem batch_isolated:
  "distinct urls \<longrightarrow>
     map fst (extract_multiple_of task urls) = urls \<and>
     length (extract_multiple_of task urls) = length urls \<and>
     (\<forall>u\<in>set urls.
        map_of (extract_multiple_of task urls) u =
          Some (case task u of Inl e \<Rightarrow> None | Inr t \<Rightarrow> t) \<and>
        ((map_of (extract_multiple_of task urls) u = Some None) =
           ((\<exists>e. task u = Inl e) \<or> task u = Inr None)) \<and>
        map_of (extract_multiple_of task urls) u = map_of (extract_multiple_of task [u]) u) \<and>
     (\<forall>fetch. \<forall>u\<in>set urls.
        map_of (extract_multiple fetch urls) u =
          Some (case extract_from_url fetch u of Inl e \<Rightarrow> None | Inr t \<Rightarrow> t) \<and>
        map_of (extract_multiple fetch urls) u = map_of (extract_multiple fetch [u]) u)"
proof
  assume d: "distinct urls"
  note eq = extract_multiple_of_distinct [OF d]
  have one: "extract_multiple_of t [u] = [(u, case t u of Inl e \<Rightarrow> None | Inr x \<Rightarrow> x)]" for t u
    by (simp add: extract_multiple_of_distinct)
  have m: "map_of (extract_multiple_of t urls) u =
             Some (case t u of Inl e \<Rightarrow> None | Inr x \<Rightarrow> x)" if "u \<in> set urls" for t u
    using that by (simp add: extract_multiple_of_distinct [OF d] map_of_tabulate)
  have n: "(map_of (extract_multiple_of task urls) u = Some None) =
           ((\<exists>e. task u = Inl e) \<or> task u = Inr None)" if "u \<in> set urls" for u
    using m [OF that, of task] by (cases "task u") auto
  have keys: "map fst (extract_multiple_of task urls) = urls"
    by (simp add: eq comp_def)
  have len: "length (extract_multiple_of task urls) = length urls"
    by (simp add: eq)
  show "map fst (extract_multiple_of task urls) = urls \<and>
     length (extract_multiple_of task urls) = length urls \<and>
     (\<forall>u\<in>set urls.
        map_of (extract_multiple_of task urls) u =
          Some (case task u of Inl e \<Rightarrow> None | Inr t \<Rightarrow> t) \<and>
        ((map_of (extract_multiple_of task urls) u = Some None) =
           ((\<exists>e. task u = Inl e) \<or> task u = Inr None)) \<and>
        map_of (extract_multiple_of task urls) u = map_of (extract_multiple_of task [u]) u) \<and>
     (\<forall>fetch. \<forall>u\<in>set urls.
        map_of (extract_multiple fetch urls) u =
          Some (case extract_from_url fetch u of Inl e \<Rightarrow> None | Inr t \<Rightarrow> t) \<and>
        map_of (extract_multiple fetch urls) u = map_of (extract_multiple fetch [u]) u)"
    using keys len m n by (simp add: one extract_multiple_def)
qed

theorem batch_isolated_witness:
  "distinct [''https://a.example/1'', ''https://b.example/2'', ''https://c.example/3''] \<and>
   map fst (extract_multiple_of
      (\<lambda>u. if u = ''https://a.example/1'' then Inl (Error ''timed out'')
           else if u = ''https://b.example/2'' then Inr None else Inr (Some ''third text''))
      [''https://a.example/1'', ''https://b.example/2'', ''https://c.example/3'']) =
     [''https://a.example/1'', ''https://b.example/2'', ''https://c.example/3''] \<and>
   extract_multiple_of
      (\<lambda>u. if u = ''https://a.example/1'' then Inl (Error ''timed out'')
           else if u = ''https://b.example/2'' then Inr None else Inr (Some ''third text''))
      [''https://a.example/1'', ''https://b.example/2'', ''https://c.example/3''] =
     [(''https://a.example/1'', None), (''https://b.example/2'', None),
      (''https://c.example/3'', Some ''third text'')]"
proof -
  let ?task = "\<lambda>u. if u = ''https://a.example/1'' then Inl (Error ''timed out'')
           else if u = ''https://b.example/2'' then Inr None else Inr (Some ''third text'')"
  let ?urls = "[''https://a.example/1'', ''https://b.example/2'', ''https://c.example/3'']"
  have d: "distinct ?urls" by simp
  have v: "extract_multiple_of ?task ?urls =
     [(''https://a.example/1'', None), (''https://b.example/2'', None),
      (''https://c.example/3'', Some ''third text'')]"
    by (simp add: extract_multiple_of_def gather_def)
  from batch_isolated [of ?urls ?task] d
  have "map fst (extract_multiple_of ?task ?urls) = ?urls" by blast
  with d v show ?thesis by blast
qed


end
